theory Spec2Isabelle
  imports Main "HOL-Library.AList"
begin

section \<open>JavaScript values\<close>

text \<open>
  The two source files build and inspect plain JavaScript values. A value is modelled by
  \<open>jsval\<close>. An object \<open>JObj ts fs\<close> has its string-keyed own properties \<open>fs\<close> in enumeration
  order (what \<open>Object.entries\<close> returns; keys are distinct in JavaScript) and, in \<open>ts\<close>, the
  property stored under the symbol \<open>$types\<close>: \<open>None\<close> when \<open>$types in data\<close> is false, the
  children list otherwise. Numbers do not occur in the modelled code paths and are left out.
  Entries stand in the order in which the keys were first written; that JavaScript enumerates
  integer-like keys first is not modelled, and no statement below depends on the order.
  A raised exception is a value of \<open>js_error\<close> on the left of a sum.
\<close>

datatype js_error = TypeError | Error string

datatype jsval =
    JUndefined
  | JNull
  | JBool bool
  | JStr string
  | JArr "jsval list"
  | JObj "jsval list option" "(string \<times> jsval) list"

definition obj :: "(string \<times> jsval) list \<Rightarrow> jsval" where
  "obj fs = JObj None fs"

text \<open>Property read \<open>o[k]\<close> on the entries of an object: \<open>undefined\<close> when absent.\<close>

definition getprop :: "(string \<times> jsval) list \<Rightarrow> string \<Rightarrow> jsval" where
  "getprop fs k = (case map_of fs k of None \<Rightarrow> JUndefined | Some v \<Rightarrow> v)"

text \<open>\<open>xs[0]\<close>: \<open>undefined\<close> on the empty array.\<close>

definition first :: "jsval list \<Rightarrow> jsval" where
  "first xs = (case xs of [] \<Rightarrow> JUndefined | x # _ \<Rightarrow> x)"

text \<open>JavaScript truthiness (\<open>!x\<close>, \<open>x ? a : b\<close>, \<open>if (x)\<close>).\<close>

fun truthy :: "jsval \<Rightarrow> bool" where
  "truthy JUndefined = False"
| "truthy JNull = False"
| "truthy (JBool b) = b"
| "truthy (JStr s) = (s \<noteq> [])"
| "truthy (JArr xs) = True"
| "truthy (JObj ts fs) = True"

text \<open>\<open>Array.prototype.join\<close> on an array of strings.\<close>

fun join :: "string \<Rightarrow> string list \<Rightarrow> string" where
  "join sep [] = []"
| "join sep [x] = x"
| "join sep (x # y # ys) = x @ sep @ join sep (y # ys)"

text \<open>Decimal numeral of an array index, the key \<open>Object.entries\<close> gives an array element.\<close>

fun dec :: "nat \<Rightarrow> string" where
  "dec n = (if n < 10 then [char_of (48 + n)] else dec (n div 10) @ [char_of (48 + n mod 10)])"

subsection \<open>\<open>JSON.stringify\<close>\<close>

text \<open>
  \<open>JSON.stringify\<close> of the language (ECMAScript, QuoteJSONString and SerializeJSONProperty):
  \<open>undefined\<close> has no serialization (\<open>None\<close>), is written \<open>null\<close> inside an array and is
  skipped as a property value; symbol-keyed properties are never written.
\<close>

definition hexdigit :: "nat \<Rightarrow> char" where
  "hexdigit n = (if n < 10 then char_of (48 + n) else char_of (87 + n))"

definition escape_char :: "char \<Rightarrow> string" where
  "escape_char c =
     (if c = CHR 0x08 then [CHR 0x5C, CHR ''b'']
      else if c = CHR 0x09 then [CHR 0x5C, CHR ''t'']
      else if c = CHR 0x0A then [CHR 0x5C, CHR ''n'']
      else if c = CHR 0x0C then [CHR 0x5C, CHR ''f'']
      else if c = CHR 0x0D then [CHR 0x5C, CHR ''r'']
      else if c = CHR 0x22 then [CHR 0x5C, CHR 0x22]
      else if c = CHR 0x5C then [CHR 0x5C, CHR 0x5C]
      else if (of_char c :: nat) < 32
        then [CHR 0x5C, CHR ''u'', CHR ''0'', CHR ''0'',
              hexdigit (of_char c div 16), hexdigit (of_char c mod 16)]
      else [c])"

definition QuoteJSONString :: "string \<Rightarrow> string" where
  "QuoteJSONString s = [CHR 0x22] @ concat (map escape_char s) @ [CHR 0x22]"

fun JSON_stringify :: "jsval \<Rightarrow> string option"
  and stringify_elems :: "jsval list \<Rightarrow> string list"
  and stringify_props :: "(string \<times> jsval) list \<Rightarrow> string list"
where
  "JSON_stringify JUndefined = None"
| "JSON_stringify JNull = Some ''null''"
| "JSON_stringify (JBool b) = Some (if b then ''true'' else ''false'')"
| "JSON_stringify (JStr s) = Some (QuoteJSONString s)"
| "JSON_stringify (JArr xs) = Some (''['' @ join '','' (stringify_elems xs) @ '']'')"
| "JSON_stringify (JObj ts fs) = Some (''{'' @ join '','' (stringify_props fs) @ ''}'')"
| "stringify_elems [] = []"
| "stringify_elems (x # xs) =
     (case JSON_stringify x of None \<Rightarrow> ''null'' | Some s \<Rightarrow> s) # stringify_elems xs"
| "stringify_props [] = []"
| "stringify_props ((k, v) # kvs) =
     (case JSON_stringify v of
        None \<Rightarrow> stringify_props kvs
      | Some s \<Rightarrow> (QuoteJSONString k @ '':'' @ s) # stringify_props kvs)"

section \<open>The schema serializer: \<open>toSchema\<close> (core/src/lib/paths.ts)\<close>

text \<open>
  \<open>toSchema(data)\<close> dispatches in the order of the source: \<open>null\<close>/\<open>undefined\<close>, strings, the
  five \<open>kind\<close> tags, any other object carrying \<open>$types\<close>, and last the plain field-keyed
  object. \<open>data.kind\<close> is read on every object, tagged or plain. \<open>data[$types][0]\<close> and
  \<open>data[$types].map\<close> raise a TypeError when the object has no \<open>$types\<close>; so does the
  \<open>in\<close> operator on a boolean. An array has no \<open>kind\<close> and no \<open>$types\<close> and falls to the last
  branch, where its entries are keyed by index.
\<close>

definition startsWith :: "string \<Rightarrow> char \<Rightarrow> bool" where
  "startsWith s c = (case s of [] \<Rightarrow> False | x # _ \<Rightarrow> x = c)"

definition object_schema :: "(string \<times> jsval) list \<Rightarrow> jsval" where
  "object_schema props =
     obj [(''type'', JStr ''object''), (''properties'', obj props),
          (''additionalProperties'', JBool False)]"

fun toSchema :: "jsval \<Rightarrow> js_error + jsval"
  and toSchema_map :: "jsval list \<Rightarrow> js_error + jsval list"
  and toSchema_entries :: "(string \<times> jsval) list \<Rightarrow> js_error + (string \<times> jsval) list"
where
  "toSchema JNull = Inr (obj [(''type'', JStr ''any'')])"
| "toSchema JUndefined = Inr (obj [(''type'', JStr ''any'')])"
| "toSchema (JStr s) =
     (if startsWith s (CHR ''#'') then Inr (obj [(''$ref'', JStr s)])
      else Inr (obj [(''type'', JStr s)]))"
| "toSchema (JBool b) = Inl TypeError"
| "toSchema (JArr xs) =
     (case toSchema_map xs of
        Inl e \<Rightarrow> Inl e
      | Inr ys \<Rightarrow> Inr (object_schema (zip (map dec [0..<length ys]) ys)))"
| "toSchema (JObj ts fs) =
     (if getprop fs ''kind'' = JStr ''literal'' then
        (case ts of
           None \<Rightarrow> Inl TypeError
         | Some cs \<Rightarrow> Inr (obj [(''enum'', JArr [getprop fs ''value'']), (''type'', first cs)]))
      else if getprop fs ''kind'' = JStr ''record'' then
        (case ts of
           None \<Rightarrow> Inl TypeError
         | Some cs \<Rightarrow>
             (case (case cs of [] \<Rightarrow> toSchema JUndefined | c # _ \<Rightarrow> toSchema c) of
                Inl e \<Rightarrow> Inl e
              | Inr s \<Rightarrow> Inr (obj [(''type'', JStr ''object''), (''additionalProperties'', s)])))
      else if getprop fs ''kind'' = JStr ''array'' then
        (case ts of
           None \<Rightarrow> Inl TypeError
         | Some cs \<Rightarrow>
             (case toSchema_map cs of
                Inl e \<Rightarrow> Inl e
              | Inr items \<Rightarrow>
                  Inr (obj [(''type'', JStr ''array''),
                            (''items'', (case items of [] \<Rightarrow> obj [] | i # _ \<Rightarrow> i))])))
      else if getprop fs ''kind'' = JStr ''union'' then
        (case ts of
           None \<Rightarrow> Inl TypeError
         | Some cs \<Rightarrow>
             (case toSchema_map cs of
                Inl e \<Rightarrow> Inl e
              | Inr items \<Rightarrow> Inr (obj [(''anyOf'', JArr items)])))
      else if getprop fs ''kind'' = JStr ''intersection'' then
        (case ts of
           None \<Rightarrow> Inl TypeError
         | Some cs \<Rightarrow>
             (case toSchema_map cs of
                Inl e \<Rightarrow> Inl e
              | Inr items \<Rightarrow> Inr (obj [(''allOf'', JArr items)])))
      else
        (case ts of
           Some cs \<Rightarrow>
             (case toSchema_map cs of
                Inl e \<Rightarrow> Inl e
              | Inr items \<Rightarrow> Inr (case items of [] \<Rightarrow> obj [] | i # _ \<Rightarrow> i))
         | None \<Rightarrow>
             (case toSchema_entries fs of
                Inl e \<Rightarrow> Inl e
              | Inr props \<Rightarrow> Inr (object_schema props))))"
| "toSchema_map [] = Inr []"
| "toSchema_map (x # xs) =
     (case toSchema x of
        Inl e \<Rightarrow> Inl e
      | Inr y \<Rightarrow> (case toSchema_map xs of Inl e \<Rightarrow> Inl e | Inr ys \<Rightarrow> Inr (y # ys)))"
| "toSchema_entries [] = Inr []"
| "toSchema_entries ((k, v) # kvs) =
     (case toSchema v of
        Inl e \<Rightarrow> Inl e
      | Inr y \<Rightarrow>
          (case toSchema_entries kvs of Inl e \<Rightarrow> Inl e | Inr ys \<Rightarrow> Inr ((k, y) # ys)))"

section \<open>The operation accumulator: class \<open>Paths\<close> (core/src/lib/paths.ts)\<close>

subsection \<open>Response merging: \<open>#responseItemToResponses\<close>\<close>

text \<open>
  A \<open>ResponseItem\<close> whose \<open>response\<close> is absent has \<open>response = JUndefined\<close>. In a
  \<open>ResponseObject\<close> the content \<open>ro_content\<close> maps a content type to the schema of its media-type object
  \<open>{schema}\<close>; \<open>ro_headers\<close> is \<open>None\<close> for \<open>undefined\<close>. Objects are entry lists updated
  in place by \<open>AList.update\<close>, as a property write does. Status codes and content types are
  taken not to be names of members of \<open>Object.prototype\<close>.
\<close>

record ResponseItem =
  statusCode :: string
  response :: jsval
  contentType :: string
  headers :: "string list"

record ResponseObject =
  ro_description :: string
  ro_content :: "(string \<times> jsval) list"
  ro_headers :: "(string \<times> jsval) list option"

type_synonym ResponsesObject = "(string \<times> ResponseObject) list"

text \<open>
  \<open>item.headers.length ? item.headers.reduce((acc, header) => ({...acc, [header]: {schema:
  {type: 'string'}}}), {}) : undefined\<close>
\<close>

definition headersObject :: "string list \<Rightarrow> (string \<times> jsval) list option" where
  "headersObject hs =
     (if length hs \<noteq> 0
      then Some (foldl (\<lambda>acc header.
                   AList.update header (obj [(''schema'', obj [(''type'', JStr ''string'')])]) acc)
                 [] hs)
      else None)"

text \<open>
  The innermost branch (lines 136 to 150): the entry for the content type exists and holds
  \<open>existing\<close>. \<open>existing.oneOf.push(schema)\<close> changes the list in place; a truthy \<open>oneOf\<close>
  that is no array has no \<open>find\<close> and raises.
\<close>

definition mergeSchema :: "jsval \<Rightarrow> jsval \<Rightarrow> js_error + jsval" where
  "mergeSchema existing schema =
     (case existing of
        JObj ts fs \<Rightarrow>
          (if truthy (getprop fs ''oneOf'') then
             (case getprop fs ''oneOf'' of
                JArr oneOf \<Rightarrow>
                  (case find (\<lambda>it. JSON_stringify it = JSON_stringify schema) oneOf of
                     None \<Rightarrow> Inr (JObj ts (AList.update ''oneOf'' (JArr (oneOf @ [schema])) fs))
                   | Some it \<Rightarrow>
                       (if \<not> truthy it
                        then Inr (JObj ts (AList.update ''oneOf'' (JArr (oneOf @ [schema])) fs))
                        else Inr existing))
              | _ \<Rightarrow> Inl TypeError)
           else if JSON_stringify existing \<noteq> JSON_stringify schema
             then Inr (obj [(''oneOf'', JArr [existing, schema])])
           else Inr existing)
      | _ \<Rightarrow>
          (if JSON_stringify existing \<noteq> JSON_stringify schema
           then Inr (obj [(''oneOf'', JArr [existing, schema])])
           else Inr existing))"

text \<open>The body of the loop over \<open>responses\<close> (lines 111 to 152).\<close>

definition addResponseItem :: "ResponsesObject \<Rightarrow> ResponseItem \<Rightarrow> js_error + ResponsesObject" where
  "addResponseItem responsesObject item =
     (let ct = contentType item in
      case (if truthy (response item) then toSchema (response item) else Inr (obj [])) of
        Inl e \<Rightarrow> Inl e
      | Inr schema \<Rightarrow>
          (case map_of responsesObject (statusCode item) of
             None \<Rightarrow>
               Inr (AList.update (statusCode item)
                      \<lparr>ro_description = ''Response for '' @ statusCode item,
                       ro_content =
                         [(ct, if ct = ''application/octet-stream''
                               then obj [(''type'', JStr ''string''), (''format'', JStr ''binary'')]
                               else schema)],
                       ro_headers = headersObject (headers item)\<rparr>
                      responsesObject)
           | Some r \<Rightarrow>
               (case map_of (ro_content r) ct of
                  None \<Rightarrow>
                    Inr (AList.update (statusCode item)
                           (r\<lparr>ro_content := AList.update ct schema (ro_content r)\<rparr>) responsesObject)
                | Some existing \<Rightarrow>
                    (case mergeSchema existing schema of
                       Inl e \<Rightarrow> Inl e
                     | Inr merged \<Rightarrow>
                         Inr (AList.update (statusCode item)
                                (r\<lparr>ro_content := AList.update ct merged (ro_content r)\<rparr>)
                                responsesObject)))))"

fun responseItems_loop :: "ResponsesObject \<Rightarrow> ResponseItem list \<Rightarrow> js_error + ResponsesObject" where
  "responseItems_loop responsesObject [] = Inr responsesObject"
| "responseItems_loop responsesObject (item # items) =
     (case addResponseItem responsesObject item of
        Inl e \<Rightarrow> Inl e
      | Inr responsesObject' \<Rightarrow> responseItems_loop responsesObject' items)"

definition responseItemToResponses :: "ResponseItem list \<Rightarrow> js_error + ResponsesObject" where
  "responseItemToResponses responses = responseItems_loop [] responses"

text \<open>What is stored for a status code and a content type: \<open>r[status].content[ct].schema\<close>.\<close>

definition stored_schema :: "ResponsesObject \<Rightarrow> string \<Rightarrow> string \<Rightarrow> jsval option" where
  "stored_schema r status ct =
     (case map_of r status of None \<Rightarrow> None | Some ro \<Rightarrow> map_of (ro_content ro) ct)"

subsection \<open>\<open>addPath\<close>, \<open>#selectosToParameters\<close> and \<open>getPaths\<close>\<close>

datatype Method = Get | Post | Put | Patch | Delete | Trace | Head

datatype SemanticSource = Query | Queries | Body | Params | Headers

text \<open>The table \<open>semanticSourceToOpenAPI\<close>; it has no entry for \<open>body\<close>.\<close>

fun semanticSourceToOpenAPI :: "SemanticSource \<Rightarrow> string option" where
  "semanticSourceToOpenAPI Queries = Some ''query''"
| "semanticSourceToOpenAPI Query = Some ''query''"
| "semanticSourceToOpenAPI Headers = Some ''header''"
| "semanticSourceToOpenAPI Params = Some ''path''"
| "semanticSourceToOpenAPI Body = None"

record Selector =
  sel_name :: string
  select :: string
  against :: string
  sel_source :: SemanticSource
  nullable :: bool
  required :: bool

record ParameterObject =
  param_in :: "string option"
  param_name :: string
  param_required :: bool
  param_schema :: jsval

record OperationObject =
  operationId :: string
  oo_parameters :: "ParameterObject list"
  oo_tags :: "string list option"
  oo_description :: "string option"
  oo_requestBody :: "jsval option"
  oo_responses :: "ResponsesObject option"

type_synonym PathsObject = "(string \<times> (Method \<times> OperationObject) list) list"

text \<open>
  The hook \<open>OnOperation\<close>; \<open>None\<close> is a hook that returns \<open>undefined\<close> or \<open>null\<close>. The hook is
  taken to be a function of its four arguments that leaves them unchanged.
\<close>

type_synonym OnOperation = "string \<Rightarrow> Method \<Rightarrow> string \<Rightarrow> OperationObject \<Rightarrow> PathsObject option"

record StoredOperation =
  so_sourceFile :: string
  so_name :: string
  so_path :: string
  so_method :: Method
  so_selectors :: "Selector list"
  so_responses :: ResponsesObject
  so_tags :: "string list option"
  so_description :: "string option"

record Paths =
  commonZodImport :: "string option"
  onOperation :: "OnOperation option"
  p_operations :: "StoredOperation list"

definition new_Paths :: "string option \<Rightarrow> OnOperation option \<Rightarrow> Paths" where
  "new_Paths czi hook = \<lparr>commonZodImport = czi, onOperation = hook, p_operations = []\<rparr>"

definition addPath ::
  "Paths \<Rightarrow> string \<Rightarrow> string \<Rightarrow> Method \<Rightarrow> Selector list \<Rightarrow> ResponseItem list \<Rightarrow> string \<Rightarrow>
   string list option \<Rightarrow> string option \<Rightarrow> js_error + Paths" where
  "addPath this name path method selectors responses sourceFile tags description =
     (case responseItemToResponses responses of
        Inl e \<Rightarrow> Inl e
      | Inr responsesObject \<Rightarrow>
          Inr (this\<lparr>p_operations := p_operations this @
                 [\<lparr>so_sourceFile = sourceFile, so_name = name, so_path = path,
                   so_method = method, so_selectors = selectors,
                   so_responses = responsesObject, so_tags = tags,
                   so_description = description\<rparr>]\<rparr>))"

text \<open>
  \<open>evalZod\<close> loads and runs a module built from the expression; it is the external evaluator
  and is a parameter here: from the expression and the common import to a schema or a failure.
\<close>

type_synonym Evaluator = "string \<Rightarrow> string option \<Rightarrow> js_error + jsval"

fun selectors_loop ::
  "Evaluator \<Rightarrow> string option \<Rightarrow> ParameterObject list \<Rightarrow> (string \<times> jsval) list \<Rightarrow> Selector list \<Rightarrow>
   js_error + (ParameterObject list \<times> (string \<times> jsval) list)" where
  "selectors_loop evalZod czi parameters bodySchemaProps [] = Inr (parameters, bodySchemaProps)"
| "selectors_loop evalZod czi parameters bodySchemaProps (selector # rest) =
     (case evalZod (against selector) czi of
        Inl e \<Rightarrow> Inl e
      | Inr schema \<Rightarrow>
          (if sel_source selector = Body
           then selectors_loop evalZod czi parameters
                  (AList.update (sel_name selector) schema bodySchemaProps) rest
           else selectors_loop evalZod czi
                  (parameters @
                     [\<lparr>param_in = semanticSourceToOpenAPI (sel_source selector),
                       param_name = sel_name selector,
                       param_required = required selector,
                       param_schema = schema\<rparr>])
                  bodySchemaProps rest))"

definition selectosToParameters ::
  "Evaluator \<Rightarrow> Paths \<Rightarrow> Selector list \<Rightarrow>
   js_error + (ParameterObject list \<times> (string \<times> jsval) list)" where
  "selectosToParameters evalZod this selectors =
     selectors_loop evalZod (commonZodImport this) [] [] selectors"

text \<open>\<open>Object.assign(target, source)\<close> on two paths objects.\<close>

definition Object_assign :: "PathsObject \<Rightarrow> PathsObject \<Rightarrow> PathsObject" where
  "Object_assign target source = foldl (\<lambda>t kv. AList.update (fst kv) (snd kv) t) target source"

text \<open>
  One record of the log of hook invocations: the arguments, and the paths mapping of
  \<open>getPaths\<close> as it stood when the hook was called.
\<close>

record HookCall =
  hc_sourceFile :: string
  hc_method :: Method
  hc_path :: string
  hc_operation :: OperationObject
  hc_paths_then :: PathsObject

definition operationObject_of ::
  "StoredOperation \<Rightarrow> ParameterObject list \<Rightarrow> (string \<times> jsval) list \<Rightarrow> OperationObject" where
  "operationObject_of operation parameters bodySchemaProps =
     \<lparr>operationId = so_name operation,
      oo_parameters = parameters,
      oo_tags = so_tags operation,
      oo_description = so_description operation,
      oo_requestBody =
        (if length (map fst bodySchemaProps) \<noteq> 0
         then Some (obj [(''content'',
                obj [(''application/json'',
                  obj [(''schema'',
                    obj [(''type'', JStr ''object''), (''properties'', obj bodySchemaProps)])])])])
         else None),
      oo_responses =
        (if length (map fst (so_responses operation)) = 0 then None
         else Some (so_responses operation))\<rparr>"

text \<open>
  The loop of \<open>getPaths\<close> (lines 182 to 221). Inside the \<open>if (this.#onOperation)\<close> block the
  declaration \<open>const operations = this.#onOperation?.(...)\<close> shadows the mapping of the
  function: \<open>Object.assign(operations, operations ?? {})\<close> there assigns what the hook
  returned to itself (and raises a TypeError on \<open>undefined\<close>), and the block ends. The outer
  mapping \<open>operations\<close> is the one the loop goes on with and the function returns.
\<close>

fun getPaths_loop ::
  "Evaluator \<Rightarrow> Paths \<Rightarrow> PathsObject \<Rightarrow> HookCall list \<Rightarrow> StoredOperation list \<Rightarrow>
   js_error + (PathsObject \<times> HookCall list)" where
  "getPaths_loop evalZod this operations calls [] = Inr (operations, calls)"
| "getPaths_loop evalZod this operations calls (operation # rest) =
     (case selectosToParameters evalZod this (so_selectors operation) of
        Inl e \<Rightarrow> Inl e
      | Inr (parameters, bodySchemaProps) \<Rightarrow>
          (let path = so_path operation;
               method = so_method operation;
               operationObject = operationObject_of operation parameters bodySchemaProps;
               operations1 =
                 (if map_of operations path = None then AList.update path [] operations
                  else operations);
               operations2 =
                 AList.update path
                   (AList.update method operationObject
                      (case map_of operations1 path of None \<Rightarrow> [] | Some ms \<Rightarrow> ms))
                   operations1
           in case onOperation this of
                None \<Rightarrow> getPaths_loop evalZod this operations2 calls rest
              | Some hook \<Rightarrow>
                  (let call = \<lparr>hc_sourceFile = so_sourceFile operation, hc_method = method,
                               hc_path = path, hc_operation = operationObject,
                               hc_paths_then = operations2\<rparr>
                   in case hook (so_sourceFile operation) method path operationObject of
                        None \<Rightarrow> Inl TypeError
                      | Some inner_operations \<Rightarrow>
                          (let inner_operations' = Object_assign inner_operations inner_operations
                           in getPaths_loop evalZod this operations2 (calls @ [call]) rest))))"

definition getPaths :: "Evaluator \<Rightarrow> Paths \<Rightarrow> js_error + (PathsObject \<times> HookCall list)" where
  "getPaths evalZod this = getPaths_loop evalZod this [] [] (p_operations this)"

section \<open>The artifact compiler: \<open>generateClientSdk\<close> (typescript/src/lib/sdk.ts)\<close>

subsection \<open>Strings\<close>

text \<open>
  Strings are byte lists. \<open>toUpperCase\<close> and \<open>trim\<close> are those of the language on ASCII text
  (HTTP methods, identifiers and generated lines); bytes outside ASCII are left as they are.
\<close>

definition toUpperCase :: "string \<Rightarrow> string" where
  "toUpperCase s =
     map (\<lambda>c. case map_of (zip ''abcdefghijklmnopqrstuvwxyz'' ''ABCDEFGHIJKLMNOPQRSTUVWXYZ'') c of
                None \<Rightarrow> c
              | Some u \<Rightarrow> u) s"

definition is_whitespace :: "char \<Rightarrow> bool" where
  "is_whitespace c = (c \<in> set [CHR 0x09, CHR 0x0A, CHR 0x0B, CHR 0x0C, CHR 0x0D, CHR 0x20])"

definition trim :: "string \<Rightarrow> string" where
  "trim s = rev (dropWhile is_whitespace (rev (dropWhile is_whitespace s)))"

text \<open>
  Modelled from the spec: \<open>removeDuplicates\<close> is a helper of the package \<open>@sdk-it/core\<close> whose
  file is not among the sources. The spec says of its two uses that the identifiers are
  "deduplicated into one shared import list"; both calls pass the identity as accessor. The
  model keeps one occurrence of every element, in the order of first occurrence.
\<close>

definition removeDuplicates :: "string list \<Rightarrow> string list" where
  "removeDuplicates xs = rev (remdups (rev xs))"

subsection \<open>The emitters\<close>

text \<open>
  Classes \<open>Emitter\<close> and \<open>StreamEmitter\<close> (which overrides \<open>complete\<close> only) and class
  \<open>SchemaEndpoint\<close>: two lists of lines each.
\<close>

record Emitter =
  em_imports :: "string list"
  em_endpoints :: "string list"

record SchemaEndpoint =
  se_imports :: "string list"
  se_endpoints :: "string list"

definition new_SchemaEndpoint :: SchemaEndpoint where
  "new_SchemaEndpoint =
     \<lparr>se_imports =
        [''import z from '' @ [CHR 0x27] @ ''zod'' @ [CHR 0x27] @ '';'',
         ''import type { Endpoints } from '' @ [CHR 0x22] @ ''./endpoints'' @ [CHR 0x22] @ '';'',
         ''import { toRequest, json, urlencoded, formdata, createUrl } from '' @ [CHR 0x27] @
           ''./request'' @ [CHR 0x27] @ '';'',
         ''import type { ParseError } from '' @ [CHR 0x27] @ ''./parser'' @ [CHR 0x27] @ '';''],
      se_endpoints = []\<rparr>"

definition SchemaEndpoint_addEndpoint :: "SchemaEndpoint \<Rightarrow> string \<Rightarrow> string \<Rightarrow> SchemaEndpoint" where
  "SchemaEndpoint_addEndpoint this endpoint operation =
     this\<lparr>se_endpoints := se_endpoints this @
       [''  '' @ [CHR 0x22] @ endpoint @ [CHR 0x22] @ '': '' @ operation @ '','']\<rparr>"

definition SchemaEndpoint_addImport :: "SchemaEndpoint \<Rightarrow> string \<Rightarrow> SchemaEndpoint" where
  "SchemaEndpoint_addImport this v = this\<lparr>se_imports := se_imports this @ [v]\<rparr>"

definition SchemaEndpoint_complete :: "SchemaEndpoint \<Rightarrow> string" where
  "SchemaEndpoint_complete this =
     join ''\<newline>'' (se_imports this) @ ''\<newline>export default {\<newline>'' @
     join ''\<newline>'' (se_endpoints this) @ ''\<newline>}''"

definition new_Emitter :: Emitter where
  "new_Emitter =
     \<lparr>em_imports =
        [''import z from '' @ [CHR 0x27] @ ''zod'' @ [CHR 0x27] @ '';'',
         ''import type { ParseError } from '' @ [CHR 0x27] @ ''./parser'' @ [CHR 0x27] @ '';''],
      em_endpoints = []\<rparr>"

definition Emitter_addEndpoint :: "Emitter \<Rightarrow> string \<Rightarrow> string \<Rightarrow> Emitter" where
  "Emitter_addEndpoint this endpoint operation =
     this\<lparr>em_endpoints := em_endpoints this @
       [''  '' @ [CHR 0x22] @ endpoint @ [CHR 0x22] @ '': '' @ operation @ '';'']\<rparr>"

definition Emitter_addImport :: "Emitter \<Rightarrow> string \<Rightarrow> Emitter" where
  "Emitter_addImport this v = this\<lparr>em_imports := em_imports this @ [v]\<rparr>"

definition Emitter_complete :: "Emitter \<Rightarrow> string" where
  "Emitter_complete this =
     join ''\<newline>'' (em_imports this) @ ''\<newline>export interface Endpoints {\<newline>'' @
     join ''\<newline>'' (em_endpoints this) @ ''\<newline>}''"

definition StreamEmitter_complete :: "Emitter \<Rightarrow> string" where
  "StreamEmitter_complete this =
     join ''\<newline>'' (em_imports this) @
     ''\<newline>export interface StreamEndpoints {\<newline>'' @
     join ''\<newline>'' (em_endpoints this) @ ''\<newline>}''"

subsection \<open>The specification\<close>

text \<open>
  Interfaces \<open>NamedImport\<close>, \<open>Import\<close>, \<open>OperationInput\<close>, \<open>Operation\<close> and \<open>Spec\<close>. Fields carry a
  short prefix where the source uses the name for a local variable too. The interface declares
  \<open>errors\<close> and \<open>namedImports\<close> as arrays, and the code reads both through \<open>??\<close>: \<open>None\<close> is
  the absent (\<open>undefined\<close> or \<open>null\<close>) value. \<open>op_schemas\<close> and \<open>op_inputs\<close> are the entries of
  the two records in enumeration order, with distinct keys. Of \<open>trigger\<close> the code reads
  \<open>method\<close> and \<open>path\<close>; \<open>formatOutput()\<close> is given by the two strings it returns.
\<close>

record NamedImport =
  ni_name :: string
  ni_alias :: "string option"
  ni_isTypeOnly :: bool

record Import =
  isTypeOnly :: bool
  moduleSpecifier :: string
  defaultImport :: "string option"
  namedImports :: "NamedImport list option"
  namespaceImport :: "string option"

record OperationInput =
  oi_source :: string
  oi_schema :: string

record Operation =
  op_name :: string
  op_errors :: "string list option"
  op_type :: string
  op_imports :: "Import list"
  trigger_method :: string
  trigger_path :: string
  op_contentType :: "string option"
  op_schemas :: "(string \<times> string) list"
  op_inputs :: "(string \<times> OperationInput) list"
  output_import :: string
  output_use :: string

record Spec =
  groups :: "(string \<times> Operation list) list"
  commonZod :: "string option"

text \<open>
  What the compiler takes from outside this file: the case conversions of the package
  \<open>stringcase\<close>, \<open>toLitObject\<close> of \<open>@sdk-it/core\<close>, the module \<open>backend\<close> and the four text
  templates. They are parameters of the model.
\<close>

record externals =
  camelcase :: "string \<Rightarrow> string"
  pascalcase :: "string \<Rightarrow> string"
  spinalcase :: "string \<Rightarrow> string"
  toLitObject :: "(string \<times> string) list \<Rightarrow> string"
  backend :: "Spec \<Rightarrow> string"
  parserTxt :: string
  clientTxt :: string
  requestTxt :: string
  responseTxt :: string

subsection \<open>Input buckets (lines 154 to 177)\<close>

record Buckets =
  inputHeaders :: "string list"
  inputQuery :: "string list"
  inputBody :: "string list"
  inputParams :: "string list"

definition empty_buckets :: Buckets where
  "empty_buckets = \<lparr>inputHeaders = [], inputQuery = [], inputBody = [], inputParams = []\<rparr>"

definition quoted :: "string \<Rightarrow> string" where
  "quoted name = [CHR 0x22] @ name @ [CHR 0x22]"

text \<open>
  \<open>JSON.stringify(prop)\<close> of line 172. An input object is taken as the interface
  \<open>OperationInput\<close> declares it: the two properties \<open>source\<close> and \<open>schema\<close>, created in this
  order and with no further property. \<open>JSON.stringify\<close> enumerates the properties an object
  has, in the order of their creation, so for an object built otherwise this fragment of the
  message is different; the source, the field and the operation the message names are not.
\<close>

definition stringify_input :: "OperationInput \<Rightarrow> string" where
  "stringify_input prop =
     (case JSON_stringify (obj [(''source'', JStr (oi_source prop)),
                                (''schema'', JStr (oi_schema prop))]) of
        None \<Rightarrow> ''undefined''
      | Some s \<Rightarrow> s)"

fun classify_inputs ::
  "string \<Rightarrow> Buckets \<Rightarrow> (string \<times> OperationInput) list \<Rightarrow> js_error + Buckets" where
  "classify_inputs operation_name b [] = Inr b"
| "classify_inputs operation_name b ((name, prop) # rest) =
     (if oi_source prop = ''headers'' \<or> oi_source prop = ''header'' then
        classify_inputs operation_name (b\<lparr>inputHeaders := inputHeaders b @ [quoted name]\<rparr>) rest
      else if oi_source prop = ''query'' then
        classify_inputs operation_name (b\<lparr>inputQuery := inputQuery b @ [quoted name]\<rparr>) rest
      else if oi_source prop = ''body'' then
        classify_inputs operation_name (b\<lparr>inputBody := inputBody b @ [quoted name]\<rparr>) rest
      else if oi_source prop = ''path'' then
        classify_inputs operation_name (b\<lparr>inputParams := inputParams b @ [quoted name]\<rparr>) rest
      else if oi_source prop = ''internal'' then
        classify_inputs operation_name b rest
      else
        Inl (Error (''Unknown source '' @ oi_source prop @ '' in '' @ name @ '' '' @
                    stringify_input prop @ '' in '' @ operation_name)))"

subsection \<open>The generated entries\<close>

text \<open>The template of the dispatch entry of a streaming operation (lines 190 to 201).\<close>

definition stream_dispatch_text :: "string \<Rightarrow> string \<Rightarrow> Buckets \<Rightarrow> string" where
  "stream_dispatch_text schemaRef endpoint b =
     ''{\<newline>'' @
     ''        schema: '' @ schemaRef @ '',\<newline>'' @
     ''        toRequest(input: StreamEndpoints['' @ [CHR 0x27] @ endpoint @ [CHR 0x27] @
     '']['input'], init: {baseUrl:string; headers?: Record<string, string>}) {\<newline>'' @
     ''          const endpoint = '' @ [CHR 0x27] @ endpoint @ [CHR 0x27] @ '';\<newline>'' @
     ''            return toRequest(endpoint, json(input, {\<newline>'' @
     ''            inputHeaders: ['' @ join '','' (inputHeaders b) @ ''],\<newline>'' @
     ''            inputQuery: ['' @ join '','' (inputQuery b) @ ''],\<newline>'' @
     ''            inputBody: ['' @ join '','' (inputBody b) @ ''],\<newline>'' @
     ''            inputParams: ['' @ join '','' (inputParams b) @ ''],\<newline>'' @
     ''          }), init);\<newline>'' @
     ''          },\<newline>'' @
     ''        }''"

text \<open>
  The template of the dispatch entry of a standard operation (lines 224 to 235);
  \<open>encoder\<close> is \<open>operation.contentType || 'json'\<close>.
\<close>

definition standard_dispatch_text ::
  "string \<Rightarrow> bool \<Rightarrow> string \<Rightarrow> string \<Rightarrow> string \<Rightarrow> Buckets \<Rightarrow> string" where
  "standard_dispatch_text schemaRef addTypeParser type endpoint encoder b =
     ''{\<newline>'' @
     ''          schema: '' @ schemaRef @ (if addTypeParser then ''.'' @ type else []) @
     '',\<newline>'' @
     ''          toRequest(input: Endpoints['' @ [CHR 0x27] @ endpoint @ [CHR 0x27] @
     '']['input'], init: {baseUrl:string; headers?: Record<string, string>}) {\<newline>'' @
     ''            const endpoint = '' @ [CHR 0x27] @ endpoint @ [CHR 0x27] @
     '';\<newline>'' @
     ''              return toRequest(endpoint, '' @ encoder @ ''(input, {\<newline>'' @
     ''              inputHeaders: ['' @ join '','' (inputHeaders b) @ ''],\<newline>'' @
     ''              inputQuery: ['' @ join '','' (inputQuery b) @ ''],\<newline>'' @
     ''              inputBody: ['' @ join '','' (inputBody b) @ ''],\<newline>'' @
     ''              inputParams: ['' @ join '','' (inputParams b) @ ''],\<newline>'' @
     ''            }), init);\<newline>'' @
     ''            },\<newline>'' @
     ''          }''"

text \<open>
  The error type of a registry entry (line 220):
  \<open>(operation.errors ?? ['ServerError']).concat(`ParseError<${input}>`).join('|')\<close>.
\<close>

definition error_union :: "Operation \<Rightarrow> string \<Rightarrow> string" where
  "error_union operation input =
     join ''|'' ((case op_errors operation of None \<Rightarrow> [''ServerError''] | Some es \<Rightarrow> es) @
                 [''ParseError<'' @ input @ ''>''])"

subsection \<open>The compiler\<close>

text \<open>
  The variables of lines 119 to 124. \<open>schemas\<close> maps the file name of a group to its lines: an
  entry list updated by \<open>AList.update\<close>, as a property write does. The file name of a group is
  taken not to be \<open>__proto__\<close>, the one key whose assignment creates no property.
\<close>

record gen_state =
  emitter :: Emitter
  streamEmitter :: Emitter
  schemas :: "(string \<times> string list) list"
  schemasImports :: "string list"
  schemaEndpoint :: SchemaEndpoint
  errors :: "string list"

definition initial_state :: gen_state where
  "initial_state =
     \<lparr>emitter = new_Emitter, streamEmitter = new_Emitter, schemas = [], schemasImports = [],
      schemaEndpoint = new_SchemaEndpoint, errors = []\<rparr>"

text \<open>A loop whose body may raise: the first error ends it.\<close>

fun foldE :: "('s \<Rightarrow> 'a \<Rightarrow> 'e + 's) \<Rightarrow> 's \<Rightarrow> 'a list \<Rightarrow> 'e + 's" where
  "foldE f s [] = Inr s"
| "foldE f s (x # xs) = (case f s x of Inl e \<Rightarrow> Inl e | Inr s' \<Rightarrow> foldE f s' xs)"

text \<open>The body of \<open>for (const type in operation.schemas ?? {})\<close> (lines 211 to 236).\<close>

definition add_variant ::
  "Operation \<Rightarrow> string \<Rightarrow> bool \<Rightarrow> Buckets \<Rightarrow> gen_state \<Rightarrow> string \<Rightarrow> gen_state" where
  "add_variant operation schemaRef addTypeParser b st type =
     (let typePrefix = (if addTypeParser \<and> type \<noteq> ''json'' then type @ '' '' else []);
          input = ''typeof '' @ schemaRef @ (if addTypeParser then ''.'' @ type else []);
          endpoint = typePrefix @ toUpperCase (trigger_method operation) @ '' '' @
                     trigger_path operation
      in st\<lparr>emitter :=
               Emitter_addEndpoint (emitter st) endpoint
                 (''{input: z.infer<'' @ input @ ''>; output: '' @ output_use operation @
                  ''; error: '' @ error_union operation input @ ''}''),
             schemaEndpoint :=
               SchemaEndpoint_addEndpoint (schemaEndpoint st) endpoint
                 (standard_dispatch_text schemaRef addTypeParser type endpoint
                    (case op_contentType operation of
                       None \<Rightarrow> ''json''
                     | Some c \<Rightarrow> if c = [] then ''json'' else c)
                    b)\<rparr>)"

text \<open>
  The body of \<open>for (const operation of operations)\<close> (lines 138 to 238).
  \<open>schemas[featureSchemaFileName].push\<close> raises when the key is absent; the enclosing loop
  has set it.
\<close>

definition process_operation ::
  "externals \<Rightarrow> string \<Rightarrow> gen_state \<Rightarrow> Operation \<Rightarrow> js_error + gen_state" where
  "process_operation ext featureSchemaFileName st operation =
     (let schemaName = camelcase ext (op_name operation @ '' schema'');
          schema = ''export const '' @ schemaName @ '' = '' @
                   (if length (map fst (op_schemas operation)) = 1
                    then hd (map snd (op_schemas operation))
                    else toLitObject ext (op_schemas operation)) @ '';''
      in case map_of (schemas st) featureSchemaFileName of
           None \<Rightarrow> Inl TypeError
         | Some lines \<Rightarrow>
             (let st1 = st\<lparr>schemas :=
                             AList.update featureSchemaFileName (lines @ [schema]) (schemas st),
                           schemasImports := schemasImports st @
                             concat (map (\<lambda>it. map ni_name
                                            (case namedImports it of None \<Rightarrow> [] | Some ns \<Rightarrow> ns))
                                       (op_imports operation))\<rparr>;
                  schemaRef = featureSchemaFileName @ ''.'' @ schemaName
              in case classify_inputs (op_name operation) empty_buckets (op_inputs operation) of
                   Inl e \<Rightarrow> Inl e
                 | Inr b \<Rightarrow>
                     (if op_type operation = ''sse'' then
                        (let input = ''z.infer<typeof '' @ schemaRef @ ''>'';
                             endpoint = toUpperCase (trigger_method operation) @ '' '' @
                                        trigger_path operation
                         in Inr (st1\<lparr>streamEmitter :=
                                   Emitter_addEndpoint
                                     (Emitter_addImport (streamEmitter st1)
                                        (''import type {'' @ pascalcase ext (op_name operation) @
                                         ''} from '' @ [CHR 0x27] @ ''./outputs/'' @
                                         spinalcase ext (op_name operation) @ [CHR 0x27] @ '';''))
                                     endpoint
                                     (''{input: '' @ input @ '', output: '' @
                                      output_use operation @ ''}''),
                                 schemaEndpoint :=
                                   SchemaEndpoint_addEndpoint (schemaEndpoint st1) endpoint
                                     (stream_dispatch_text schemaRef endpoint b)\<rparr>))
                      else
                        (let st2 = st1\<lparr>emitter :=
                                     Emitter_addImport (emitter st1)
                                       (''import type {'' @ output_import operation @
                                        ''} from '' @ [CHR 0x27] @ ''./outputs/'' @
                                        spinalcase ext (op_name operation) @ [CHR 0x27] @ '';''),
                                   errors := errors st1 @
                                     (case op_errors operation of None \<Rightarrow> [] | Some es \<Rightarrow> es)\<rparr>;
                             addTypeParser = (1 < length (map fst (op_schemas operation)))
                         in Inr (foldl (add_variant operation schemaRef addTypeParser b) st2
                                   (map fst (op_schemas operation)))))))"

text \<open>The body of \<open>for (const [name, operations] of Object.entries(spec.groups))\<close>.\<close>

definition group_import :: "string \<Rightarrow> string" where
  "group_import featureSchemaFileName =
     ''import * as '' @ featureSchemaFileName @ '' from '' @ [CHR 0x27] @ ''./inputs/'' @
     featureSchemaFileName @ [CHR 0x27] @ '';''"

definition process_group ::
  "externals \<Rightarrow> gen_state \<Rightarrow> string \<times> Operation list \<Rightarrow> js_error + gen_state" where
  "process_group ext st entry =
     (let featureSchemaFileName = camelcase ext (fst entry);
          st1 = st\<lparr>schemas :=
                     AList.update featureSchemaFileName
                       [''import z from '' @ [CHR 0x27] @ ''zod'' @ [CHR 0x27] @ '';'']
                       (schemas st),
                   emitter := Emitter_addImport (emitter st) (group_import featureSchemaFileName),
                   streamEmitter :=
                     Emitter_addImport (streamEmitter st) (group_import featureSchemaFileName),
                   schemaEndpoint :=
                     SchemaEndpoint_addImport (schemaEndpoint st)
                       (group_import featureSchemaFileName)\<rparr>
      in foldE (process_operation ext featureSchemaFileName) st1 (snd entry))"

definition compile_groups :: "externals \<Rightarrow> Spec \<Rightarrow> js_error + gen_state" where
  "compile_groups ext spec = foldE (process_group ext) initial_state (groups spec)"

text \<open>The import line every schema module gets (lines 250 to 252), and a schema module.\<close>

definition zod_import_line :: "string list \<Rightarrow> string" where
  "zod_import_line schemasImports' =
     (if length schemasImports' \<noteq> 0
      then ''import {'' @ join '','' (removeDuplicates schemasImports') @ ''} from '' @
           [CHR 0x27] @ ''../zod'' @ [CHR 0x27] @ '';''
      else [])"

definition schema_module :: "Spec \<Rightarrow> string list \<Rightarrow> string list \<Rightarrow> string" where
  "schema_module spec schemasImports' v =
     join ''\<newline>''
       (filter (\<lambda>it. it \<noteq> [])
          (map trim
             ([zod_import_line schemasImports',
               (case commonZod spec of
                  None \<Rightarrow> []
                | Some c \<Rightarrow>
                    if c = [] then []
                    else ''import * as commonZod from '' @ [CHR 0x22] @ ''../zod'' @
                         [CHR 0x22] @ '';'')] @ v))) @
     ''\<newline>''"

definition errors_import_line :: "string list \<Rightarrow> string" where
  "errors_import_line errors' =
     ''import type { '' @ join '', '' (removeDuplicates errors') @ '' } from '' @ [CHR 0x27] @
     ''./response'' @ [CHR 0x27] @ '';''"

definition artifacts :: "externals \<Rightarrow> Spec \<Rightarrow> gen_state \<Rightarrow> (string \<times> string) list" where
  "artifacts ext spec st =
     map (\<lambda>kv. (''inputs/'' @ fst kv @ ''.ts'', schema_module spec (schemasImports st) (snd kv)))
       (schemas st) @
     [(''backend.ts'', backend ext spec),
      (''parser.ts'', parserTxt ext),
      (''client.ts'', clientTxt ext),
      (''request.ts'', requestTxt ext),
      (''schemas.ts'', SchemaEndpoint_complete (schemaEndpoint st)),
      (''endpoints.ts'',
         Emitter_complete (Emitter_addImport (emitter st) (errors_import_line (errors st)))),
      (''response.ts'', responseTxt ext)]"

definition generateClientSdk :: "externals \<Rightarrow> Spec \<Rightarrow> js_error + (string \<times> string) list" where
  "generateClientSdk ext spec =
     (case compile_groups ext spec of
        Inl e \<Rightarrow> Inl e
      | Inr st \<Rightarrow> Inr (artifacts ext spec st))"

section \<open>Predicates of the statements\<close>

text \<open>
  A value is free of internal tags when no object in it carries the symbol \<open>$types\<close>. A
  schema object is an object free of internal tags.
\<close>

fun tag_free :: "jsval \<Rightarrow> bool"
  and tag_free_list :: "jsval list \<Rightarrow> bool"
  and tag_free_props :: "(string \<times> jsval) list \<Rightarrow> bool"
where
  "tag_free JUndefined = True"
| "tag_free JNull = True"
| "tag_free (JBool b) = True"
| "tag_free (JStr s) = True"
| "tag_free (JArr xs) = tag_free_list xs"
| "tag_free (JObj ts fs) = (ts = None \<and> tag_free_props fs)"
| "tag_free_list [] = True"
| "tag_free_list (x # xs) = (tag_free x \<and> tag_free_list xs)"
| "tag_free_props [] = True"
| "tag_free_props ((k, v) # kvs) = (tag_free v \<and> tag_free_props kvs)"

definition is_schema_object :: "jsval \<Rightarrow> bool" where
  "is_schema_object s = (case s of JObj ts fs \<Rightarrow> tag_free s | _ \<Rightarrow> False)"

definition kind_tags :: "jsval list" where
  "kind_tags =
     [JStr ''literal'', JStr ''record'', JStr ''array'', JStr ''union'', JStr ''intersection'']"

text \<open>
  The structural type nodes on which \<open>toSchema\<close> is shown to return: \<open>null\<close>, \<open>undefined\<close>,
  strings, and objects such that an object whose \<open>kind\<close> is one of the five tags carries its
  children under \<open>$types\<close> (as the interface \<open>DateType\<close> declares), the value and the
  primitive kind of a literal are free of internal tags, and the children and fields the
  serializer descends into are nodes again.
\<close>

fun is_node :: "jsval \<Rightarrow> bool"
  and are_nodes :: "jsval list \<Rightarrow> bool"
  and are_fields :: "(string \<times> jsval) list \<Rightarrow> bool"
where
  "is_node JUndefined = True"
| "is_node JNull = True"
| "is_node (JStr s) = True"
| "is_node (JBool b) = False"
| "is_node (JArr xs) = False"
| "is_node (JObj ts fs) =
     (if getprop fs ''kind'' = JStr ''literal'' then
        (case ts of
           None \<Rightarrow> False
         | Some cs \<Rightarrow> tag_free (getprop fs ''value'') \<and> tag_free (first cs))
      else if getprop fs ''kind'' = JStr ''record'' then
        (case ts of
           None \<Rightarrow> False
         | Some cs \<Rightarrow> (case cs of [] \<Rightarrow> True | c # _ \<Rightarrow> is_node c))
      else if getprop fs ''kind'' \<in> set kind_tags then
        (case ts of None \<Rightarrow> False | Some cs \<Rightarrow> are_nodes cs)
      else
        (case ts of Some cs \<Rightarrow> are_nodes cs | None \<Rightarrow> are_fields fs))"
| "are_nodes [] = True"
| "are_nodes (x # xs) = (is_node x \<and> are_nodes xs)"
| "are_fields [] = True"
| "are_fields ((k, v) # kvs) = (is_node v \<and> are_fields kvs)"

text \<open>
  A record of the log is the call of the hook for an operation: it has the source file, the
  method and the path of the operation, and when the hook was called the paths mapping held
  the operation object passed to it under that path and method.
\<close>

definition hook_call_of :: "StoredOperation \<Rightarrow> HookCall \<Rightarrow> bool" where
  "hook_call_of operation call =
     (hc_sourceFile call = so_sourceFile operation \<and> hc_method call = so_method operation \<and>
      hc_path call = so_path operation \<and>
      (\<exists>ms. map_of (hc_paths_then call) (so_path operation) = Some ms \<and>
            map_of ms (so_method operation) = Some (hc_operation call)))"

subsection \<open>Functions of the statements about the compiler\<close>

text \<open>
  The line \<open>Emitter.addEndpoint\<close> pushes for a key and an entry, and the line
  \<open>SchemaEndpoint.addEndpoint\<close> pushes.
\<close>

definition registry_line :: "string \<Rightarrow> string \<Rightarrow> string" where
  "registry_line key body = ''  '' @ [CHR 0x22] @ key @ [CHR 0x22] @ '': '' @ body @ '';''"

definition dispatch_line :: "string \<Rightarrow> string \<Rightarrow> string" where
  "dispatch_line key body = ''  '' @ [CHR 0x22] @ key @ [CHR 0x22] @ '': '' @ body @ '',''"

text \<open>
  The local \<open>schemaRef\<close> of an operation in the group file \<open>f\<close> (line 152), and its request
  encoder \<open>operation.contentType || 'json'\<close> (line 228).
\<close>

definition schemaRef_of :: "externals \<Rightarrow> string \<Rightarrow> Operation \<Rightarrow> string" where
  "schemaRef_of ext f operation = f @ ''.'' @ camelcase ext (op_name operation @ '' schema'')"

definition encoder_of :: "Operation \<Rightarrow> string" where
  "encoder_of operation = (case op_contentType operation of None \<Rightarrow> ''json'' | Some c \<Rightarrow> if c = [] then ''json'' else c)"

text \<open>
  The six source names the classification knows; the concatenation of the four buckets; the
  operations of a specification, group after group; and the error of line 171 for a field.
\<close>

definition input_sources :: "string list" where
  "input_sources = [''headers'', ''header'', ''query'', ''body'', ''path'', ''internal'']"

definition all_buckets :: "Buckets \<Rightarrow> string list" where
  "all_buckets b = inputHeaders b @ inputQuery b @ inputBody b @ inputParams b"

definition all_operations :: "Spec \<Rightarrow> Operation list" where
  "all_operations spec = concat (map snd (groups spec))"

definition unknown_source_error :: "Operation \<Rightarrow> string \<Rightarrow> OperationInput \<Rightarrow> js_error" where
  "unknown_source_error operation name prop =
     Error (''Unknown source '' @ oi_source prop @ '' in '' @ name @ '' '' @
            stringify_input prop @ '' in '' @ op_name operation)"

text \<open>
  The quoted names of the fields whose source is among \<open>srcs\<close>, in the order of the inputs.
\<close>

definition names_with :: "string list \<Rightarrow> (string \<times> OperationInput) list \<Rightarrow> string list" where
  "names_with srcs inputs = map (\<lambda>kv. quoted (fst kv)) (filter (\<lambda>kv. oi_source (snd kv) \<in> set srcs) inputs)"

text \<open>
  \<open>e\<close> is the error of line 171 for some field of unknown source of some operation of \<open>ops\<close>.
\<close>

definition bad_input_error :: "Operation list \<Rightarrow> js_error \<Rightarrow> bool" where
  "bad_input_error ops e =
     (\<exists>operation name p. operation \<in> set ops \<and> (name, p) \<in> set (op_inputs operation) \<and>
        oi_source p \<notin> set input_sources \<and> e = unknown_source_error operation name p)"

text \<open>
  What an operation adds to \<open>errors\<close> (line 207) and to \<open>schemasImports\<close> (lines 147 to 151);
  the operations that are not streaming; the named imports of all operations of all groups.
\<close>

definition declared_errors :: "Operation \<Rightarrow> string list" where
  "declared_errors operation = (case op_errors operation of None \<Rightarrow> [] | Some es \<Rightarrow> es)"

definition named_imports_of :: "Operation \<Rightarrow> string list" where
  "named_imports_of operation =
     concat (map (\<lambda>it. map ni_name (case namedImports it of None \<Rightarrow> [] | Some ns \<Rightarrow> ns))
               (op_imports operation))"

definition standard_operations :: "Spec \<Rightarrow> Operation list" where
  "standard_operations spec = filter (\<lambda>operation. op_type operation \<noteq> ''sse'') (all_operations spec)"

definition all_named_imports :: "Spec \<Rightarrow> string list" where
  "all_named_imports spec = concat (map named_imports_of (all_operations spec))"

section \<open>Example inputs\<close>

text \<open>
  The node of the example of the spec: a composite with the field \<open>items\<close>, an array of
  references to \<open>#/Item\<close>.
\<close>

definition example_node :: jsval where
  "example_node =
     JObj None
       [(''items'', JObj (Some [JStr ''#/Item''])
                      [(''kind'', JStr ''array''), (''optional'', JBool False)])]"

text \<open>
  Response items for the status code 200. The response type is a node as the interface
  \<open>DateType\<close> declares it, with the one child \<open>string\<close>; its schema is \<open>{type: 'string'}\<close>.
\<close>

definition primitive_node :: "string \<Rightarrow> jsval" where
  "primitive_node name =
     JObj (Some [JStr name]) [(''kind'', JStr ''primitive''), (''optional'', JBool False)]"

definition json_item :: ResponseItem where
  "json_item =
     \<lparr>statusCode = ''200'', response = primitive_node ''string'',
      contentType = ''application/json'', headers = []\<rparr>"

definition binary_item :: ResponseItem where
  "binary_item =
     \<lparr>statusCode = ''200'', response = primitive_node ''string'',
      contentType = ''application/octet-stream'', headers = []\<rparr>"

definition bare_binary_item :: ResponseItem where
  "bare_binary_item =
     \<lparr>statusCode = ''200'', response = JUndefined,
      contentType = ''application/octet-stream'', headers = []\<rparr>"

text \<open>
  An accumulator with one operation, \<open>GET /items\<close>, an evaluator that returns the empty
  schema, and a hook that returns a fragment with the path \<open>/extra\<close>.
\<close>

definition example_evaluator :: Evaluator where
  "example_evaluator = (\<lambda>schema czi. Inr (obj []))"

definition example_hook :: OnOperation where
  "example_hook = (\<lambda>sourceFile method path operation. Some [(''/extra'', [(Get, operation)])])"

definition example_paths :: Paths where
  "example_paths =
     \<lparr>commonZodImport = None, onOperation = Some example_hook,
      p_operations =
        [\<lparr>so_sourceFile = ''items.ts'', so_name = ''listItems'', so_path = ''/items'',
          so_method = Get, so_selectors = [], so_responses = [], so_tags = None,
          so_description = None\<rparr>]\<rparr>"

subsection \<open>Example specifications\<close>

text \<open>
  Stand-ins for the case conversions of \<open>stringcase\<close> and for \<open>toLitObject\<close>, used by the
  examples only: a word boundary is a space or a hyphen. The theorems hold for every choice of
  the externals.
\<close>

fun camel_from :: "bool \<Rightarrow> string \<Rightarrow> string" where
  "camel_from up [] = []"
| "camel_from up (c # cs) =
     (if c = CHR '' '' \<or> c = CHR ''-'' then camel_from True cs
      else (if up then toUpperCase [c] else [c]) @ camel_from False cs)"

definition example_externals :: externals where
  "example_externals =
     \<lparr>camelcase = camel_from False,
      pascalcase = camel_from True,
      spinalcase = map (\<lambda>c. if c = CHR '' '' then CHR ''-'' else c),
      toLitObject = (\<lambda>entries. ''{'' @ join '', '' (map (\<lambda>kv. fst kv @ '': '' @ snd kv) entries) @ ''}''),
      backend = (\<lambda>spec. []),
      parserTxt = [], clientTxt = [], requestTxt = [], responseTxt = []\<rparr>"

text \<open>
  Three operations: \<open>GET /items\<close> with one schema variant and a named import, \<open>POST /items\<close>
  with the variants \<open>json\<close> and \<open>formdata\<close> and an internal field, and the streaming operation
  \<open>GET /events\<close>, which declares the content type \<open>formdata\<close>, two variants and an error.
\<close>

definition list_items :: Operation where
  "list_items =
     \<lparr>op_name = ''list items'', op_errors = Some [''NotFound''], op_type = ''http'',
      op_imports = [\<lparr>isTypeOnly = False, moduleSpecifier = ''../zod'', defaultImport = None,
                     namedImports = Some [\<lparr>ni_name = ''pageSchema'', ni_alias = None, ni_isTypeOnly = False\<rparr>],
                     namespaceImport = None\<rparr>],
      trigger_method = ''get'', trigger_path = ''/items'', op_contentType = None,
      op_schemas = [(''json'', ''z.object({limit: pageSchema})'')],
      op_inputs = [(''limit'', \<lparr>oi_source = ''query'', oi_schema = ''pageSchema''\<rparr>)],
      output_import = ''ListItems'', output_use = ''ListItems''\<rparr>"

definition create_item :: Operation where
  "create_item =
     \<lparr>op_name = ''create item'', op_errors = Some [''NotFound'', ''Conflict''], op_type = ''http'',
      op_imports = [],
      trigger_method = ''post'', trigger_path = ''/items'', op_contentType = None,
      op_schemas = [(''json'', ''z.object({name: z.string()})''),
                    (''formdata'', ''z.object({file: z.any()})'')],
      op_inputs = [(''name'', \<lparr>oi_source = ''body'', oi_schema = ''z.string()''\<rparr>),
                   (''x-trace'', \<lparr>oi_source = ''headers'', oi_schema = ''z.string()''\<rparr>),
                   (''tenant'', \<lparr>oi_source = ''internal'', oi_schema = ''z.string()''\<rparr>)],
      output_import = ''CreateItem'', output_use = ''CreateItem''\<rparr>"

definition stream_events :: Operation where
  "stream_events =
     \<lparr>op_name = ''stream events'', op_errors = Some [''Gone''], op_type = ''sse'',
      op_imports = [],
      trigger_method = ''get'', trigger_path = ''/events'', op_contentType = Some ''formdata'',
      op_schemas = [(''json'', ''z.object({since: z.string()})''),
                    (''formdata'', ''z.object({since: z.string()})'')],
      op_inputs = [(''since'', \<lparr>oi_source = ''query'', oi_schema = ''z.string()''\<rparr>)],
      output_import = ''StreamEvents'', output_use = ''StreamEvents''\<rparr>"

definition example_spec :: Spec where
  "example_spec = \<lparr>groups = [(''items'', [list_items, create_item]), (''events'', [stream_events])],
                   commonZod = None\<rparr>"

text \<open>
  A state in which the key of the group \<open>items\<close> (of \<open>events\<close>) is set and nothing is
  emitted yet, for the examples of a single operation.
\<close>

definition items_state :: gen_state where
  "items_state = initial_state\<lparr>schemas := [(''items'', [])]\<rparr>"

definition events_state :: gen_state where
  "events_state = initial_state\<lparr>schemas := [(''events'', [])]\<rparr>"

text \<open>
  An operation with a field of the unknown source \<open>cookie\<close>, and a specification holding it.
\<close>

definition cookie_operation :: Operation where
  "cookie_operation =
     list_items\<lparr>op_inputs := [(''session'', \<lparr>oi_source = ''cookie'', oi_schema = ''z.string()''\<rparr>)]\<rparr>"

definition cookie_spec :: Spec where
  "cookie_spec = \<lparr>groups = [(''items'', [create_item, cookie_operation])], commonZod = None\<rparr>"

text \<open>
  \<open>GET /items\<close> with an empty list of errors, and with no list of errors.
\<close>

definition empty_errors_spec :: Spec where
  "empty_errors_spec =
     \<lparr>groups = [(''items'', [list_items\<lparr>op_errors := Some []\<rparr>])], commonZod = None\<rparr>"

definition absent_errors_spec :: Spec where
  "absent_errors_spec =
     \<lparr>groups = [(''items'', [list_items\<lparr>op_errors := None\<rparr>])], commonZod = None\<rparr>"

text \<open>
  A specification in which no operation declares a named import.
\<close>

definition no_imports_spec :: Spec where
  "no_imports_spec = \<lparr>groups = [(''events'', [stream_events])], commonZod = None\<rparr>"

text \<open>
  A specification with the common module set, in which both groups declare named imports: the
  group \<open>items\<close> declares \<open>pageSchema\<close>, the streaming operation of the group \<open>events\<close>
  declares \<open>cursorSchema\<close> and \<open>pageSchema\<close> again, and an import without named imports.
\<close>

definition shared_imports_spec :: Spec where
  "shared_imports_spec =
     \<lparr>groups =
        [(''items'', [list_items, create_item]),
         (''events'',
            [stream_events\<lparr>op_imports :=
               [\<lparr>isTypeOnly = False, moduleSpecifier = ''../zod'', defaultImport = None,
                 namedImports = Some [\<lparr>ni_name = ''cursorSchema'', ni_alias = None, ni_isTypeOnly = False\<rparr>,
                                      \<lparr>ni_name = ''pageSchema'', ni_alias = None, ni_isTypeOnly = False\<rparr>],
                 namespaceImport = None\<rparr>,
                \<lparr>isTypeOnly = True, moduleSpecifier = ''./types'', defaultImport = Some ''Types'',
                 namedImports = None, namespaceImport = None\<rparr>]\<rparr>])],
      commonZod = Some ''./common''\<rparr>"

text \<open>
  A specification with the common module set, in which no operation declares a named import.
\<close>

definition common_zod_spec :: Spec where
  "common_zod_spec = \<lparr>groups = [(''events'', [stream_events])], commonZod = Some ''./common''\<rparr>"

section \<open>The schema serializer returns on every node\<close>

lemma toSchema_map_ok:
  assumes "\<And>x. x \<in> set xs \<Longrightarrow> is_node x \<Longrightarrow> \<exists>s. toSchema x = Inr s \<and> is_schema_object s"
    and "are_nodes xs"
  shows "\<exists>ys. toSchema_map xs = Inr ys \<and> list_all is_schema_object ys \<and> length ys = length xs"
  using assms
proof (induction xs)
  case Nil
  then show ?case by simp
next
  case (Cons x xs)
  from Cons.prems obtain s where s: "toSchema x = Inr s" "is_schema_object s" by auto
  from Cons obtain ys where ys: "toSchema_map xs = Inr ys" "list_all is_schema_object ys"
    "length ys = length xs"
    by auto
  show ?case using s ys by simp
qed

lemma is_schema_objectD: "is_schema_object s \<Longrightarrow> tag_free s"
  by (simp add: is_schema_object_def split: jsval.splits)

lemma toSchema_entries_ok:
  assumes "\<And>k v. (k, v) \<in> set kvs \<Longrightarrow> is_node v \<Longrightarrow> \<exists>s. toSchema v = Inr s \<and> is_schema_object s"
    and "are_fields kvs"
  shows "\<exists>ys. toSchema_entries kvs = Inr ys \<and> tag_free_props ys \<and> map fst ys = map fst kvs"
  using assms
proof (induction kvs)
  case Nil
  then show ?case by simp
next
  case (Cons kv kvs)
  obtain k v where kv: "kv = (k, v)" by (cases kv)
  from Cons.prems kv obtain s where s: "toSchema v = Inr s" "is_schema_object s" by auto
  from Cons kv obtain ys where ys: "toSchema_entries kvs = Inr ys" "tag_free_props ys"
    "map fst ys = map fst kvs"
    by auto
  from s(2) have "tag_free s" by (rule is_schema_objectD)
  then show ?case using s ys kv by simp
qed

lemma tag_free_list_all: "list_all is_schema_object ys \<Longrightarrow> tag_free_list ys"
  by (induction ys) (auto dest: is_schema_objectD)

lemma first_schema:
  "list_all is_schema_object ys \<Longrightarrow> is_schema_object (case ys of [] \<Rightarrow> obj [] | i # _ \<Rightarrow> i)"
  by (cases ys) (auto simp: is_schema_object_def obj_def)

lemma toSchema_node: "is_node d \<Longrightarrow> \<exists>s. toSchema d = Inr s \<and> is_schema_object s"
proof (induction d)
  case (JObj ts fs)
  let ?k = "getprop fs ''kind''"
  have ih_ts: "\<And>cs x. ts = Some cs \<Longrightarrow> x \<in> set cs \<Longrightarrow> is_node x \<Longrightarrow>
      \<exists>s. toSchema x = Inr s \<and> is_schema_object s"
    using JObj.IH(1) by auto
  have ih_fs: "\<And>k v. (k, v) \<in> set fs \<Longrightarrow> is_node v \<Longrightarrow>
      \<exists>s. toSchema v = Inr s \<and> is_schema_object s"
    using JObj.IH(2) by fastforce
  have children: "\<exists>ys. toSchema_map cs = Inr ys \<and> list_all is_schema_object ys"
    if "ts = Some cs" "are_nodes cs" for cs
    using toSchema_map_ok[OF ih_ts[OF that(1)] that(2)] by blast
  consider (lit) "?k = JStr ''literal''" | (rec) "?k = JStr ''record''"
    | (arr) "?k = JStr ''array''" | (uni) "?k = JStr ''union''"
    | (int) "?k = JStr ''intersection''" | (other) "?k \<notin> set kind_tags"
    by (auto simp: kind_tags_def)
  then show ?case
  proof cases
    case lit
    with JObj.prems obtain cs where "ts = Some cs" "tag_free (getprop fs ''value'')"
      "tag_free (first cs)"
      by (auto split: option.splits)
    then show ?thesis using lit by (simp add: is_schema_object_def obj_def)
  next
    case rec
    with JObj.prems obtain cs where ts: "ts = Some cs"
      and c: "case cs of [] \<Rightarrow> True | c # _ \<Rightarrow> is_node c"
      by (auto split: option.splits)
    show ?thesis
    proof (cases cs)
      case Nil
      then show ?thesis using rec ts by (simp add: is_schema_object_def obj_def)
    next
      case (Cons c cs')
      with c ih_ts[OF ts, of c] obtain s where "toSchema c = Inr s" "is_schema_object s"
        by auto
      then show ?thesis using rec ts Cons
        by (simp add: is_schema_object_def obj_def split: jsval.splits)
    qed
  next
    case arr
    with JObj.prems obtain cs where ts: "ts = Some cs" and c: "are_nodes cs"
      by (auto simp: kind_tags_def split: option.splits)
    from children[OF ts c] obtain ys where ys: "toSchema_map cs = Inr ys"
      "list_all is_schema_object ys"
      by blast
    from first_schema[OF ys(2)] have "tag_free (case ys of [] \<Rightarrow> obj [] | i # _ \<Rightarrow> i)"
      by (rule is_schema_objectD)
    then show ?thesis using arr ts ys by (simp add: is_schema_object_def obj_def)
  next
    case uni
    with JObj.prems obtain cs where ts: "ts = Some cs" and c: "are_nodes cs"
      by (auto simp: kind_tags_def split: option.splits)
    from children[OF ts c] obtain ys where ys: "toSchema_map cs = Inr ys"
      "list_all is_schema_object ys"
      by blast
    then show ?thesis using uni ts tag_free_list_all[OF ys(2)]
      by (simp add: is_schema_object_def obj_def)
  next
    case int
    with JObj.prems obtain cs where ts: "ts = Some cs" and c: "are_nodes cs"
      by (auto simp: kind_tags_def split: option.splits)
    from children[OF ts c] obtain ys where ys: "toSchema_map cs = Inr ys"
      "list_all is_schema_object ys"
      by blast
    then show ?thesis using int ts tag_free_list_all[OF ys(2)]
      by (simp add: is_schema_object_def obj_def)
  next
    case other
    then have nk: "?k \<noteq> JStr ''literal''" "?k \<noteq> JStr ''record''" "?k \<noteq> JStr ''array''"
      "?k \<noteq> JStr ''union''" "?k \<noteq> JStr ''intersection''"
      by (auto simp: kind_tags_def)
    show ?thesis
    proof (cases ts)
      case None
      with JObj.prems other nk have af: "are_fields fs" by simp
      have "\<exists>ys. toSchema_entries fs = Inr ys \<and> tag_free_props ys \<and> map fst ys = map fst fs"
      proof (rule toSchema_entries_ok)
        fix k v
        assume "(k, v) \<in> set fs" "is_node v"
        then show "\<exists>s. toSchema v = Inr s \<and> is_schema_object s" by (rule ih_fs)
      next
        show "are_fields fs" by (rule af)
      qed
      then obtain ys where "toSchema_entries fs = Inr ys" "tag_free_props ys"
        by blast
      then show ?thesis using nk None
        by (simp add: is_schema_object_def obj_def object_schema_def)
    next
      case (Some cs)
      with JObj.prems other nk have c: "are_nodes cs" by simp
      from children[OF Some c] obtain ys where ys: "toSchema_map cs = Inr ys"
        "list_all is_schema_object ys"
        by blast
      then show ?thesis using nk Some first_schema[OF ys(2)] by simp
    qed
  qed
qed (simp_all add: is_schema_object_def obj_def)

text \<open>
  Claim C8, as stated, fails: a plain field-keyed object whose field \<open>kind\<close> holds the string
  \<open>array\<close> has no \<open>$types\<close>, the serializer takes the \<open>array\<close> branch and
  \<open>data[$types].map\<close> raises a TypeError.
\<close>

theorem toSchema_kind_field_raises:
  "toSchema (obj [(''kind'', JStr ''array'')]) = Inl TypeError"
  by (simp add: obj_def getprop_def)

text \<open>
  Claim C8, amended: on every structural type node in which each object whose \<open>kind\<close> is one
  of the five tags carries its children list, and each literal holds a value and a primitive
  kind free of internal tags, \<open>toSchema\<close> returns, and what it returns is an object in which
  no \<open>$types\<close> is left; for \<open>null\<close> and for \<open>undefined\<close> it returns exactly \<open>{type: 'any'}\<close>.
\<close>

theorem toSchema_total_on_nodes:
  "(is_node d \<longrightarrow> (\<exists>s. toSchema d = Inr s \<and> is_schema_object s)) \<and>
   toSchema JNull = Inr (obj [(''type'', JStr ''any'')]) \<and>
   toSchema JUndefined = Inr (obj [(''type'', JStr ''any'')])"
  using toSchema_node[of d] by simp

theorem toSchema_total_on_nodes_witness:
  "is_node example_node \<and> (\<exists>s. toSchema example_node = Inr s \<and> is_schema_object s)"
proof -
  have n: "is_node example_node"
    by (simp add: example_node_def getprop_def kind_tags_def)
  from toSchema_total_on_nodes[of example_node] n
  have "\<exists>s. toSchema example_node = Inr s \<and> is_schema_object s" by blast
  with n show ?thesis by blast
qed

text \<open>The example of the spec: the schema of the composite node.\<close>

lemma toSchema_example_node:
  "toSchema example_node =
     Inr (obj [(''type'', JStr ''object''),
               (''properties'',
                  obj [(''items'', obj [(''type'', JStr ''array''),
                                        (''items'', obj [(''$ref'', JStr ''#/Item'')])])]),
               (''additionalProperties'', JBool False)])"
  by (simp add: example_node_def getprop_def object_schema_def startsWith_def)

section \<open>Response merging\<close>

text \<open>
  Claim C4 (the code departs from it): the second item below adds the content type
  \<open>application/octet-stream\<close> under a status code that has an entry already. The branch of
  line 134 stores the schema of the declared response type, \<open>{type: 'string'}\<close>, and not
  \<open>{type: 'string', format: 'binary'}\<close>; only the branch of the first item of a status code
  (line 118) has the override.
\<close>

theorem octet_stream_sibling_not_binary:
  "\<exists>r. responseItemToResponses [json_item, binary_item] = Inr r \<and>
       stored_schema r ''200'' ''application/octet-stream'' = Some (obj [(''type'', JStr ''string'')])"
  by (simp add: responseItemToResponses_def addResponseItem_def json_item_def binary_item_def
      primitive_node_def getprop_def stored_schema_def startsWith_def Let_def)

text \<open>
  Claim C3 (the code departs from it): the same item, of content type
  \<open>application/octet-stream\<close> and with no response type, added twice. The first item stores
  the binary schema, the second compares its own schema \<open>{}\<close> against it and the entry
  becomes a union of two.
\<close>

theorem octet_stream_twice_is_union:
  "\<exists>r. responseItemToResponses [bare_binary_item, bare_binary_item] = Inr r \<and>
       stored_schema r ''200'' ''application/octet-stream'' =
         Some (obj [(''oneOf'',
                 JArr [obj [(''type'', JStr ''string''), (''format'', JStr ''binary'')], obj []])])"
  by (simp add: responseItemToResponses_def addResponseItem_def bare_binary_item_def
      stored_schema_def Let_def mergeSchema_def obj_def getprop_def)

section \<open>The hook of \<open>getPaths\<close>\<close>

text \<open>
  Claim C2 (the code departs from it): the hook is called once, after \<open>/items\<close> is
  inserted, and returns a fragment with the path \<open>/extra\<close>; the mapping \<open>getPaths\<close> returns
  has the path \<open>/items\<close> only.
\<close>

theorem getPaths_drops_hook_fragment:
  "\<exists>paths calls. getPaths example_evaluator example_paths = Inr (paths, calls) \<and>
       map fst paths = [''/items''] \<and> length calls = 1 \<and>
       example_hook ''items.ts'' Get ''/items'' (hc_operation (hd calls)) =
         Some [(''/extra'', [(Get, hc_operation (hd calls))])]"
  by (simp add: getPaths_def example_paths_def example_hook_def example_evaluator_def
      selectosToParameters_def Let_def operationObject_of_def)

section \<open>Response merging and the hook, apart from the departures\<close>

text \<open>
  The merge of a schema into an existing entry, as lines 136 to 150 have it: equal
  serializations are coalesced, a different schema makes a union of two, a union grows by a
  schema it does not hold yet and is left alone by one it holds.
\<close>

lemma mergeSchema_equal:
  assumes "\<not> truthy (getprop fs ''oneOf'')"
    and "JSON_stringify (JObj ts fs) = JSON_stringify schema"
  shows "mergeSchema (JObj ts fs) schema = Inr (JObj ts fs)"
  using assms by (simp add: mergeSchema_def)

lemma mergeSchema_different:
  assumes "\<not> truthy (getprop fs ''oneOf'')"
    and "JSON_stringify (JObj ts fs) \<noteq> JSON_stringify schema"
  shows "mergeSchema (JObj ts fs) schema = Inr (obj [(''oneOf'', JArr [JObj ts fs, schema])])"
  using assms by (simp add: mergeSchema_def)

lemma find_None_iff_stringify:
  "(find (\<lambda>it. JSON_stringify it = s) xs = None) = (s \<notin> JSON_stringify ` set xs)"
  by (auto simp: find_None_iff)

lemma mergeSchema_union_new:
  assumes "JSON_stringify schema \<notin> JSON_stringify ` set xs"
  shows "mergeSchema (obj [(''oneOf'', JArr xs)]) schema = Inr (obj [(''oneOf'', JArr (xs @ [schema]))])"
proof -
  from assms have "find (\<lambda>it. JSON_stringify it = JSON_stringify schema) xs = None"
    by (simp add: find_None_iff_stringify)
  then show ?thesis by (simp add: mergeSchema_def obj_def getprop_def)
qed

lemma mergeSchema_union_present:
  assumes "JSON_stringify schema \<in> JSON_stringify ` set xs" and "\<forall>x \<in> set xs. truthy x"
  shows "mergeSchema (obj [(''oneOf'', JArr xs)]) schema = Inr (obj [(''oneOf'', JArr xs)])"
proof -
  from assms(1) have "find (\<lambda>it. JSON_stringify it = JSON_stringify schema) xs \<noteq> None"
    by (simp add: find_None_iff_stringify)
  then obtain it where it: "find (\<lambda>it. JSON_stringify it = JSON_stringify schema) xs = Some it"
    by blast
  then have "it \<in> set xs" by (auto simp: find_Some_iff)
  with assms(2) have "truthy it" by blast
  with it show ?thesis by (simp add: mergeSchema_def obj_def getprop_def)
qed

text \<open>
  Under \<open>application/json\<close>: the same schema twice, then two further schemas, then one of
  them again.
\<close>

lemma json_merge_example:
  "\<exists>r. responseItemToResponses
          [json_item, json_item, json_item\<lparr>response := primitive_node ''number''\<rparr>,
           json_item\<lparr>response := primitive_node ''#/Item''\<rparr>,
           json_item\<lparr>response := primitive_node ''number''\<rparr>] = Inr r \<and>
       stored_schema r ''200'' ''application/json'' =
         Some (obj [(''oneOf'',
                 JArr [obj [(''type'', JStr ''string'')], obj [(''type'', JStr ''number'')],
                       obj [(''$ref'', JStr ''#/Item'')]])])"
  by (simp add: responseItemToResponses_def addResponseItem_def json_item_def primitive_node_def
      stored_schema_def Let_def mergeSchema_def obj_def getprop_def startsWith_def
      QuoteJSONString_def escape_char_def)

text \<open>
  What \<open>getPaths\<close> returns does not depend on the fragments a hook returns.
\<close>

lemma getPaths_loop_ignores_fragment:
  assumes "\<And>a b c d. h a b c d \<noteq> None"
  shows "map_sum id fst (getPaths_loop ev (this\<lparr>onOperation := Some h\<rparr>) ops calls rest) =
         map_sum id fst (getPaths_loop ev (this\<lparr>onOperation := None\<rparr>) ops calls' rest)"
proof (induction rest arbitrary: ops calls calls')
  case Nil
  then show ?case by simp
next
  case (Cons operation rest)
  show ?case
  proof (cases "selectosToParameters ev this (so_selectors operation)")
    case (Inl e)
    then show ?thesis by (simp add: selectosToParameters_def)
  next
    case (Inr pb)
    obtain ps bs where pb: "pb = (ps, bs)" by (cases pb)
    obtain frag where frag: "h (so_sourceFile operation) (so_method operation) (so_path operation)
        (operationObject_of operation ps bs) = Some frag"
      using assms by (meson option.exhaust)
    show ?thesis using Inr pb frag Cons.IH
      by (simp add: selectosToParameters_def Let_def)
  qed
qed

lemma getPaths_ignores_fragment:
  assumes "\<And>a b c d. h a b c d \<noteq> None"
  shows "map_sum id fst (getPaths ev (this\<lparr>onOperation := Some h\<rparr>)) =
         map_sum id fst (getPaths ev (this\<lparr>onOperation := None\<rparr>))"
  unfolding getPaths_def using getPaths_loop_ignores_fragment[OF assms] by simp

text \<open>
  When \<open>getPaths\<close> returns and a hook is configured, the hook was called once for every
  accumulated operation, in order, each time after the entry of the operation was inserted.
\<close>

lemma getPaths_loop_calls:
  assumes "getPaths_loop ev this ops calls rest = Inr (paths, calls')"
    and "onOperation this = Some h"
  shows "\<exists>new. calls' = calls @ new \<and> list_all2 hook_call_of rest new"
  using assms(1)
proof (induction rest arbitrary: ops calls)
  case Nil
  then show ?case by simp
next
  case (Cons operation rest)
  from Cons.prems obtain ps bs where
    pb: "selectosToParameters ev this (so_selectors operation) = Inr (ps, bs)"
    by (cases "selectosToParameters ev this (so_selectors operation)") auto
  let ?oo = "operationObject_of operation ps bs"
  let ?ops1 = "if map_of ops (so_path operation) = None then AList.update (so_path operation) [] ops else ops"
  let ?ops2 = "AList.update (so_path operation)
                   (AList.update (so_method operation) ?oo
                      (case map_of ?ops1 (so_path operation) of None \<Rightarrow> [] | Some ms \<Rightarrow> ms))
                   ?ops1"
  let ?call = "\<lparr>hc_sourceFile = so_sourceFile operation, hc_method = so_method operation,
                hc_path = so_path operation, hc_operation = ?oo, hc_paths_then = ?ops2\<rparr>"
  from Cons.prems pb assms(2) obtain frag where
    frag: "h (so_sourceFile operation) (so_method operation) (so_path operation) ?oo = Some frag"
    by (cases "h (so_sourceFile operation) (so_method operation) (so_path operation) ?oo")
       (auto simp: Let_def)
  from Cons.prems pb assms(2) frag have
    rec: "getPaths_loop ev this ?ops2 (calls @ [?call]) rest = Inr (paths, calls')"
    by (simp add: Let_def)
  from Cons.IH[OF rec] obtain new where new: "calls' = (calls @ [?call]) @ new"
    "list_all2 hook_call_of rest new" by blast
  have "hook_call_of operation ?call"
    by (simp add: hook_call_of_def update_conv')
  with new have "calls' = calls @ (?call # new) \<and> list_all2 hook_call_of (operation # rest) (?call # new)"
    by simp
  then show ?case by blast
qed

lemma getPaths_calls_hook_once:
  assumes "getPaths ev this = Inr (paths, calls)" and "onOperation this = Some h"
  shows "list_all2 hook_call_of (p_operations this) calls"
  using getPaths_loop_calls[OF assms(1)[unfolded getPaths_def] assms(2)] by simp

section \<open>The compiler, operation by operation\<close>

text \<open>
  A projection of the state to which every step appends, after the whole loop.
\<close>

lemma foldE_append:
  assumes "\<And>s x s'. x \<in> set xs \<Longrightarrow> f s x = Inr s' \<Longrightarrow> p s' = p s @ g x"
    and "foldE f s xs = Inr s'"
  shows "p s' = p s @ concat (map g xs)"
  using assms
proof (induction xs arbitrary: s)
  case Nil
  then show ?case by simp
next
  case (Cons x xs)
  from Cons.prems(2) obtain s1 where s1: "f s x = Inr s1" "foldE f s1 xs = Inr s'"
    by (auto split: sum.splits)
  have "p s1 = p s @ g x" using Cons.prems(1) s1(1) by simp
  moreover have "p s' = p s1 @ concat (map g xs)"
    using Cons.IH[OF _ s1(2)] Cons.prems(1) by simp
  ultimately show ?case by simp
qed

text \<open>
  The loop over the schema variants of a standard operation appends one registry line and one
  dispatch line per variant and changes nothing else.
\<close>

lemma foldl_add_variant_emitter:
  "em_endpoints (emitter (foldl (add_variant operation schemaRef atp b) st ts)) =
   em_endpoints (emitter st) @
   map (\<lambda>t. registry_line
          ((if atp \<and> t \<noteq> ''json'' then t @ '' '' else []) @
           toUpperCase (trigger_method operation) @ '' '' @ trigger_path operation)
          (''{input: z.infer<'' @ (''typeof '' @ schemaRef @ (if atp then ''.'' @ t else [])) @
           ''>; output: '' @ output_use operation @ ''; error: '' @
           error_union operation (''typeof '' @ schemaRef @ (if atp then ''.'' @ t else [])) @ ''}'')) ts"
  by (induction ts arbitrary: st)
     (simp_all add: add_variant_def Let_def Emitter_addEndpoint_def registry_line_def)

lemma foldl_add_variant_dispatch:
  "se_endpoints (schemaEndpoint (foldl (add_variant operation schemaRef atp b) st ts)) =
   se_endpoints (schemaEndpoint st) @
   map (\<lambda>t. dispatch_line
          ((if atp \<and> t \<noteq> ''json'' then t @ '' '' else []) @
           toUpperCase (trigger_method operation) @ '' '' @ trigger_path operation)
          (standard_dispatch_text schemaRef atp t
             ((if atp \<and> t \<noteq> ''json'' then t @ '' '' else []) @
              toUpperCase (trigger_method operation) @ '' '' @ trigger_path operation)
             (encoder_of operation) b)) ts"
  by (induction ts arbitrary: st)
     (simp_all add: add_variant_def Let_def SchemaEndpoint_addEndpoint_def dispatch_line_def encoder_of_def)

lemma foldl_add_variant_frame:
  "streamEmitter (foldl (add_variant operation schemaRef atp b) st ts) = streamEmitter st"
  "errors (foldl (add_variant operation schemaRef atp b) st ts) = errors st"
  "schemas (foldl (add_variant operation schemaRef atp b) st ts) = schemas st"
  "schemasImports (foldl (add_variant operation schemaRef atp b) st ts) = schemasImports st"
  "em_imports (emitter (foldl (add_variant operation schemaRef atp b) st ts)) = em_imports (emitter st)"
  "se_imports (schemaEndpoint (foldl (add_variant operation schemaRef atp b) st ts)) = se_imports (schemaEndpoint st)"
  by (induction ts arbitrary: st)
     (simp_all add: add_variant_def Let_def Emitter_addEndpoint_def SchemaEndpoint_addEndpoint_def)

text \<open>
  The body of the loop over the operations returns exactly when the group key is set and the
  inputs are classified; what it does to the registries and the dispatch table.
\<close>

lemma process_operation_Inr:
  assumes "process_operation ext f st operation = Inr st'"
  obtains ls b where "map_of (schemas st) f = Some ls"
    and "classify_inputs (op_name operation) empty_buckets (op_inputs operation) = Inr b"
  using assms by (auto simp: process_operation_def Let_def split: option.splits sum.splits)

lemma process_operation_sse:
  assumes "process_operation ext f st operation = Inr st'" and "op_type operation = ''sse''"
    and "classify_inputs (op_name operation) empty_buckets (op_inputs operation) = Inr b"
  shows "em_endpoints (streamEmitter st') = em_endpoints (streamEmitter st) @
           [registry_line (toUpperCase (trigger_method operation) @ '' '' @ trigger_path operation)
              (''{input: z.infer<typeof '' @ schemaRef_of ext f operation @ ''>, output: '' @ output_use operation @ ''}'')]"
    and "se_endpoints (schemaEndpoint st') = se_endpoints (schemaEndpoint st) @
           [dispatch_line (toUpperCase (trigger_method operation) @ '' '' @ trigger_path operation)
              (stream_dispatch_text (schemaRef_of ext f operation)
                 (toUpperCase (trigger_method operation) @ '' '' @ trigger_path operation) b)]"
    and "emitter st' = emitter st" and "errors st' = errors st"
    and "se_imports (schemaEndpoint st') = se_imports (schemaEndpoint st)"
  using assms
  by (auto simp: process_operation_def Let_def Emitter_addEndpoint_def Emitter_addImport_def
      SchemaEndpoint_addEndpoint_def registry_line_def dispatch_line_def schemaRef_of_def
      split: option.splits sum.splits)

lemma process_operation_standard:
  assumes "process_operation ext f st operation = Inr st'" and "op_type operation \<noteq> ''sse''"
    and "classify_inputs (op_name operation) empty_buckets (op_inputs operation) = Inr b"
  shows "st' = foldl (add_variant operation (schemaRef_of ext f operation)
                 (1 < length (op_schemas operation)) b)
              (st\<lparr>schemas := AList.update f (the (map_of (schemas st) f) @
                      [''export const '' @ camelcase ext (op_name operation @ '' schema'') @ '' = '' @
                       (if length (op_schemas operation) = 1 then hd (map snd (op_schemas operation))
                        else toLitObject ext (op_schemas operation)) @ '';'']) (schemas st),
                  schemasImports := schemasImports st @
                     concat (map (\<lambda>it. map ni_name (case namedImports it of None \<Rightarrow> [] | Some ns \<Rightarrow> ns))
                                (op_imports operation)),
                  emitter := Emitter_addImport (emitter st)
                     (''import type {'' @ output_import operation @ ''} from '' @ [CHR 0x27] @
                      ''./outputs/'' @ spinalcase ext (op_name operation) @ [CHR 0x27] @ '';''),
                  errors := errors st @ (case op_errors operation of None \<Rightarrow> [] | Some es \<Rightarrow> es)\<rparr>)
              (map fst (op_schemas operation))"
  using assms
  by (auto simp: process_operation_def Let_def schemaRef_of_def split: option.splits sum.splits)

lemma process_operation_returns:
  assumes "map_of (schemas st) f = Some ls"
    and "classify_inputs (op_name operation) empty_buckets (op_inputs operation) = Inr b"
  shows "\<exists>st'. process_operation ext f st operation = Inr st'"
  using assms by (simp add: process_operation_def Let_def)

section \<open>Endpoint keys\<close>

text \<open>
  Claim C1: whenever an operation is processed, the keys of the lines added to the endpoint
  registry (the stream registry for a streaming operation, the standard one otherwise) are,
  one by one and in order, the keys of the lines added to the dispatch table: for a streaming
  operation the one key \<open>METHOD path\<close>, for a standard operation one key per schema variant,
  made of the variant tag and a space when the operation has more than one variant and the
  variant is not \<open>json\<close>, the method in upper case, a space and the path.
\<close>

theorem endpoint_keys_correlate:
  assumes "process_operation ext f st operation = Inr st'"
  shows "\<exists>keys registry_bodies dispatch_bodies.
     keys =
       (if op_type operation = ''sse''
        then [toUpperCase (trigger_method operation) @ '' '' @ trigger_path operation]
        else map (\<lambda>t. (if 1 < length (op_schemas operation) \<and> t \<noteq> ''json'' then t @ '' '' else []) @
                       toUpperCase (trigger_method operation) @ '' '' @ trigger_path operation)
               (map fst (op_schemas operation))) \<and>
     length registry_bodies = length keys \<and> length dispatch_bodies = length keys \<and>
     em_endpoints ((if op_type operation = ''sse'' then streamEmitter else emitter) st') =
       em_endpoints ((if op_type operation = ''sse'' then streamEmitter else emitter) st) @
       map2 registry_line keys registry_bodies \<and>
     se_endpoints (schemaEndpoint st') =
       se_endpoints (schemaEndpoint st) @ map2 dispatch_line keys dispatch_bodies"
proof -
  from assms obtain b where b: "classify_inputs (op_name operation) empty_buckets (op_inputs operation) = Inr b"
    by (auto elim: process_operation_Inr)
  show ?thesis
  proof (cases "op_type operation = ''sse''")
    case True
    let ?K = "toUpperCase (trigger_method operation) @ '' '' @ trigger_path operation"
    let ?rb = "[''{input: z.infer<typeof '' @ schemaRef_of ext f operation @ ''>, output: '' @ output_use operation @ ''}'']"
    let ?db = "[stream_dispatch_text (schemaRef_of ext f operation) ?K b]"
    from process_operation_sse(1,2)[OF assms True b]
    have "em_endpoints (streamEmitter st') = em_endpoints (streamEmitter st) @ map2 registry_line [?K] ?rb"
      and "se_endpoints (schemaEndpoint st') = se_endpoints (schemaEndpoint st) @ map2 dispatch_line [?K] ?db"
      by simp_all
    then show ?thesis using True
      by (intro exI[of _ "[?K]"] exI[of _ ?rb] exI[of _ ?db]) simp
  next
    case False
    let ?atp = "1 < length (op_schemas operation)"
    let ?ts = "map fst (op_schemas operation)"
    let ?key = "\<lambda>t. (if ?atp \<and> t \<noteq> ''json'' then t @ '' '' else []) @
                       toUpperCase (trigger_method operation) @ '' '' @ trigger_path operation"
    let ?sr = "schemaRef_of ext f operation"
    let ?rbody = "\<lambda>t. ''{input: z.infer<'' @ (''typeof '' @ ?sr @ (if ?atp then ''.'' @ t else [])) @
           ''>; output: '' @ output_use operation @ ''; error: '' @
           error_union operation (''typeof '' @ ?sr @ (if ?atp then ''.'' @ t else [])) @ ''}''"
    let ?dbody = "\<lambda>t. standard_dispatch_text ?sr ?atp t (?key t) (encoder_of operation) b"
    note st' = process_operation_standard[OF assms False b]
    have r: "em_endpoints (emitter st') = em_endpoints (emitter st) @ map2 registry_line (map ?key ?ts) (map ?rbody ?ts)"
      by (subst st') (simp add: foldl_add_variant_emitter Emitter_addImport_def map2_map_map)
    have d: "se_endpoints (schemaEndpoint st') = se_endpoints (schemaEndpoint st) @ map2 dispatch_line (map ?key ?ts) (map ?dbody ?ts)"
      by (subst st') (simp add: foldl_add_variant_dispatch map2_map_map)
    show ?thesis using False r d
      by (intro exI[of _ "map ?key ?ts"] exI[of _ "map ?rbody ?ts"] exI[of _ "map ?dbody ?ts"]) simp
  qed
qed

lemma create_item_classified:
  "classify_inputs (op_name create_item) empty_buckets (op_inputs create_item) =
     Inr \<lparr>inputHeaders = [quoted ''x-trace''], inputQuery = [], inputBody = [quoted ''name''], inputParams = []\<rparr>"
  by (simp add: create_item_def empty_buckets_def)

theorem endpoint_keys_correlate_witness:
  "\<exists>st'. process_operation example_externals ''items'' items_state create_item = Inr st' \<and>
     (\<exists>registry_bodies dispatch_bodies.
        length registry_bodies = 2 \<and> length dispatch_bodies = 2 \<and>
        em_endpoints (emitter st') =
          map2 registry_line [''POST /items'', ''formdata POST /items''] registry_bodies \<and>
        se_endpoints (schemaEndpoint st') =
          map2 dispatch_line [''POST /items'', ''formdata POST /items''] dispatch_bodies)"
proof -
  have "map_of (schemas items_state) ''items'' = Some []"
    by (simp add: items_state_def initial_state_def)
  from process_operation_returns[OF this create_item_classified]
  obtain st' where h: "process_operation example_externals ''items'' items_state create_item = Inr st'"
    by blast
  have e: "em_endpoints (emitter items_state) = []" "se_endpoints (schemaEndpoint items_state) = []"
    by (simp_all add: items_state_def initial_state_def new_Emitter_def new_SchemaEndpoint_def)
  have "op_type create_item \<noteq> ''sse''" by (simp add: create_item_def)
  with endpoint_keys_correlate[OF h] e
  have "\<exists>registry_bodies dispatch_bodies.
        length registry_bodies = 2 \<and> length dispatch_bodies = 2 \<and>
        em_endpoints (emitter st') =
          map2 registry_line [''POST /items'', ''formdata POST /items''] registry_bodies \<and>
        se_endpoints (schemaEndpoint st') =
          map2 dispatch_line [''POST /items'', ''formdata POST /items''] dispatch_bodies"
    by (simp add: create_item_def toUpperCase_def numeral_2_eq_2)
  with h show ?thesis by blast
qed

section \<open>Streaming operations\<close>



lemma stream_events_classified:
  "classify_inputs (op_name stream_events) empty_buckets (op_inputs stream_events) =
     Inr \<lparr>inputHeaders = [], inputQuery = [quoted ''since''], inputBody = [], inputParams = []\<rparr>"
  by (simp add: stream_events_def empty_buckets_def)

lemma stream_events_returns:
  "\<exists>st'. process_operation example_externals ''events'' events_state stream_events = Inr st'"
proof -
  have "map_of (schemas events_state) ''events'' = Some []"
    by (simp add: events_state_def initial_state_def)
  from process_operation_returns[OF this stream_events_classified] show ?thesis .
qed


text \<open>
  Claim C5, amended: a streaming operation leaves the standard registry (its imports and its
  entries) and the list of error identifiers unchanged, adds one entry, with input and output
  and no error type, to the stream registry, and adds its dispatch entry to the one dispatch
  table of the compiler, the table the standard operations use.
\<close>

theorem stream_operation_routing:
  assumes "process_operation ext f st operation = Inr st'" and "op_type operation = ''sse''"
  shows "emitter st' = emitter st \<and> errors st' = errors st \<and>
     em_endpoints (streamEmitter st') =
       em_endpoints (streamEmitter st) @
       [registry_line (toUpperCase (trigger_method operation) @ '' '' @ trigger_path operation)
          (''{input: z.infer<typeof '' @ schemaRef_of ext f operation @ ''>, output: '' @
           output_use operation @ ''}'')] \<and>
     (\<exists>body. se_endpoints (schemaEndpoint st') =
        se_endpoints (schemaEndpoint st) @
        [dispatch_line (toUpperCase (trigger_method operation) @ '' '' @ trigger_path operation)
           body])"
proof -
  from assms(1) obtain b where
    b: "classify_inputs (op_name operation) empty_buckets (op_inputs operation) = Inr b"
    by (auto elim: process_operation_Inr)
  from process_operation_sse[OF assms b] show ?thesis by blast
qed

theorem stream_operation_routing_witness:
  "op_type stream_events = ''sse'' \<and>
   (\<exists>st' body.
      process_operation example_externals ''events'' events_state stream_events = Inr st' \<and>
      emitter st' = emitter events_state \<and> errors st' = [] \<and>
      em_endpoints (streamEmitter st') =
        [registry_line ''GET /events''
           ''{input: z.infer<typeof events.streamEventsSchema>, output: StreamEvents}''] \<and>
      se_endpoints (schemaEndpoint st') = [dispatch_line ''GET /events'' body])"
proof -
  obtain st' where h: "process_operation example_externals ''events'' events_state stream_events = Inr st'"
    using stream_events_returns by blast
  have t: "op_type stream_events = ''sse''" by (simp add: stream_events_def)
  have e: "se_endpoints (schemaEndpoint events_state) = []" "em_endpoints (streamEmitter events_state) = []"
    "errors events_state = []"
    by (simp_all add: events_state_def initial_state_def new_SchemaEndpoint_def new_Emitter_def)
  have k: "toUpperCase (trigger_method stream_events) @ '' '' @ trigger_path stream_events = ''GET /events''"
    "schemaRef_of example_externals ''events'' stream_events = ''events.streamEventsSchema''"
    "output_use stream_events = ''StreamEvents''"
    by (simp_all add: stream_events_def toUpperCase_def schemaRef_of_def example_externals_def)
  from stream_operation_routing[OF h t] have
    "emitter st' = emitter events_state \<and> errors st' = [] \<and>
      em_endpoints (streamEmitter st') =
        [registry_line ''GET /events''
           ''{input: z.infer<typeof events.streamEventsSchema>, output: StreamEvents}''] \<and>
      (\<exists>body. se_endpoints (schemaEndpoint st') = [dispatch_line ''GET /events'' body])"
    unfolding k e by simp
  with h t show ?thesis by blast
qed

text \<open>
  Claim C5, as stated, fails: the compiler has one dispatch table, and after the example
  specification it holds the entries of the two standard operations and that of the streaming
  operation.
\<close>

theorem shared_dispatch_table:
  "op_type list_items \<noteq> ''sse'' \<and> op_type create_item \<noteq> ''sse'' \<and> op_type stream_events = ''sse'' \<and>
   (\<exists>st b1 b2 b3 b4. compile_groups example_externals example_spec = Inr st \<and>
      se_endpoints (schemaEndpoint st) =
        [dispatch_line ''GET /items'' b1, dispatch_line ''POST /items'' b2,
         dispatch_line ''formdata POST /items'' b3, dispatch_line ''GET /events'' b4])"
  by (simp add: compile_groups_def example_spec_def process_group_def process_operation_def
      example_externals_def list_items_def create_item_def stream_events_def initial_state_def
      new_Emitter_def new_SchemaEndpoint_def Let_def add_variant_def toUpperCase_def
      empty_buckets_def quoted_def Emitter_addEndpoint_def Emitter_addImport_def
      SchemaEndpoint_addEndpoint_def SchemaEndpoint_addImport_def dispatch_line_def group_import_def)

section \<open>Input buckets\<close>

text \<open>
  One step of the classification, by the source of the field.
\<close>

lemma classify_step_headers:
  "oi_source p = ''headers'' \<or> oi_source p = ''header'' \<Longrightarrow>
   classify_inputs n b0 ((name, p) # rest) =
   classify_inputs n (b0\<lparr>inputHeaders := inputHeaders b0 @ [quoted name]\<rparr>) rest"
  by simp

lemma classify_step_query:
  "oi_source p = ''query'' \<Longrightarrow>
   classify_inputs n b0 ((name, p) # rest) =
   classify_inputs n (b0\<lparr>inputQuery := inputQuery b0 @ [quoted name]\<rparr>) rest"
  by simp

lemma classify_step_body:
  "oi_source p = ''body'' \<Longrightarrow>
   classify_inputs n b0 ((name, p) # rest) =
   classify_inputs n (b0\<lparr>inputBody := inputBody b0 @ [quoted name]\<rparr>) rest"
  by simp

lemma classify_step_path:
  "oi_source p = ''path'' \<Longrightarrow>
   classify_inputs n b0 ((name, p) # rest) =
   classify_inputs n (b0\<lparr>inputParams := inputParams b0 @ [quoted name]\<rparr>) rest"
  by simp

lemma classify_step_internal:
  "oi_source p = ''internal'' \<Longrightarrow>
   classify_inputs n b0 ((name, p) # rest) = classify_inputs n b0 rest"
  by simp

lemma classify_step_unknown:
  "oi_source p \<notin> set input_sources \<Longrightarrow>
   classify_inputs n b0 ((name, p) # rest) =
   Inl (Error (''Unknown source '' @ oi_source p @ '' in '' @ name @ '' '' @
               stringify_input p @ '' in '' @ n))"
  by (simp add: input_sources_def)

lemma source_cases:
  obtains (headers) "oi_source p = ''headers'' \<or> oi_source p = ''header''"
  | (query) "oi_source p = ''query''" | (body) "oi_source p = ''body''"
  | (path) "oi_source p = ''path''" | (internal) "oi_source p = ''internal''"
  | (unknown) "oi_source p \<notin> set input_sources"
  by (auto simp: input_sources_def)

lemma classify_inputs_Inr:
  "classify_inputs n b0 inputs = Inr b \<Longrightarrow>
     inputHeaders b = inputHeaders b0 @ names_with [''headers'', ''header''] inputs \<and>
     inputQuery b = inputQuery b0 @ names_with [''query''] inputs \<and>
     inputBody b = inputBody b0 @ names_with [''body''] inputs \<and>
     inputParams b = inputParams b0 @ names_with [''path''] inputs \<and>
     (\<forall>kv \<in> set inputs. oi_source (snd kv) \<in> set input_sources)"
proof (induction inputs arbitrary: b0)
  case Nil
  then show ?case by (simp add: names_with_def)
next
  case (Cons kv rest)
  obtain name p where kv: "kv = (name, p)" by (cases kv)
  from Cons.prems have prems: "classify_inputs n b0 ((name, p) # rest) = Inr b"
    by (simp only: kv)
  show ?case
  proof (cases p rule: source_cases)
    case headers
    from prems have "classify_inputs n (b0\<lparr>inputHeaders := inputHeaders b0 @ [quoted name]\<rparr>) rest = Inr b"
      unfolding classify_step_headers[OF headers] .
    from Cons.IH[OF this] headers show ?thesis
      by (auto simp: kv names_with_def input_sources_def)
  next
    case query
    from prems have "classify_inputs n (b0\<lparr>inputQuery := inputQuery b0 @ [quoted name]\<rparr>) rest = Inr b"
      unfolding classify_step_query[OF query] .
    from Cons.IH[OF this] query show ?thesis
      by (simp add: kv names_with_def input_sources_def)
  next
    case body
    from prems have "classify_inputs n (b0\<lparr>inputBody := inputBody b0 @ [quoted name]\<rparr>) rest = Inr b"
      unfolding classify_step_body[OF body] .
    from Cons.IH[OF this] body show ?thesis
      by (simp add: kv names_with_def input_sources_def)
  next
    case path
    from prems have "classify_inputs n (b0\<lparr>inputParams := inputParams b0 @ [quoted name]\<rparr>) rest = Inr b"
      unfolding classify_step_path[OF path] .
    from Cons.IH[OF this] path show ?thesis
      by (simp add: kv names_with_def input_sources_def)
  next
    case internal
    from prems have "classify_inputs n b0 rest = Inr b"
      unfolding classify_step_internal[OF internal] .
    from Cons.IH[OF this] internal show ?thesis
      by (simp add: kv names_with_def input_sources_def)
  next
    case unknown
    from prems show ?thesis
      unfolding classify_step_unknown[OF unknown] by simp
  qed
qed

lemma classify_inputs_Inl:
  "classify_inputs n b0 inputs = Inl e \<Longrightarrow>
     \<exists>name p. (name, p) \<in> set inputs \<and> oi_source p \<notin> set input_sources \<and>
        e = Error (''Unknown source '' @ oi_source p @ '' in '' @ name @ '' '' @
                   stringify_input p @ '' in '' @ n)"
proof (induction inputs arbitrary: b0)
  case Nil
  then show ?case by simp
next
  case (Cons kv rest)
  obtain name p where kv: "kv = (name, p)" by (cases kv)
  from Cons.prems have prems: "classify_inputs n b0 ((name, p) # rest) = Inl e"
    by (simp only: kv)
  have rec: "\<exists>name' p'. (name', p') \<in> set (kv # rest) \<and> oi_source p' \<notin> set input_sources \<and>
        e = Error (''Unknown source '' @ oi_source p' @ '' in '' @ name' @ '' '' @
                   stringify_input p' @ '' in '' @ n)"
    if "classify_inputs n b1 rest = Inl e" for b1
    using Cons.IH[OF that] by auto
  show ?case
  proof (cases p rule: source_cases)
    case headers
    from prems show ?thesis unfolding classify_step_headers[OF headers] by (rule rec)
  next
    case query
    from prems show ?thesis unfolding classify_step_query[OF query] by (rule rec)
  next
    case body
    from prems show ?thesis unfolding classify_step_body[OF body] by (rule rec)
  next
    case path
    from prems show ?thesis unfolding classify_step_path[OF path] by (rule rec)
  next
    case internal
    from prems show ?thesis unfolding classify_step_internal[OF internal] by (rule rec)
  next
    case unknown
    from prems have "e = Error (''Unknown source '' @ oi_source p @ '' in '' @ name @ '' '' @
                   stringify_input p @ '' in '' @ n)"
      unfolding classify_step_unknown[OF unknown] by simp
    with unknown show ?thesis unfolding kv by auto
  qed
qed

lemma classify_inputs_unknown:
  assumes "(name, prop) \<in> set inputs" "oi_source prop \<notin> set input_sources"
  shows "\<exists>e. classify_inputs n b0 inputs = Inl e"
proof (cases "classify_inputs n b0 inputs")
  case (Inl e)
  then show ?thesis by blast
next
  case (Inr b)
  from classify_inputs_Inr[OF Inr] assms show ?thesis by force
qed

lemma quoted_inj: "quoted a = quoted b \<longleftrightarrow> a = b"
  by (simp add: quoted_def)

lemma count_names_with:
  assumes "distinct (map fst inputs)" "(name, prop) \<in> set inputs"
  shows "count_list (names_with srcs inputs) (quoted name) = (if oi_source prop \<in> set srcs then 1 else 0)"
  using assms
proof (induction inputs)
  case Nil
  then show ?case by simp
next
  case (Cons kv inputs)
  show ?case
  proof (cases "kv = (name, prop)")
    case True
    with Cons.prems(1) have "name \<notin> fst ` set inputs" by auto
    then have "quoted name \<notin> set (names_with srcs inputs)"
      by (force simp: names_with_def quoted_inj)
    then have "count_list (names_with srcs inputs) (quoted name) = 0"
      by (simp add: count_list_0_iff)
    with True show ?thesis by (simp add: names_with_def)
  next
    case False
    with Cons.prems have in_rest: "(name, prop) \<in> set inputs" and "fst kv \<noteq> name"
      by (auto simp: rev_image_eqI)
    with Cons show ?thesis by (simp add: names_with_def quoted_inj)
  qed
qed

text \<open>
  A loop fails when one of its elements fails in every state, and a failure of the loop is the
  failure of one of its elements.
\<close>

lemma foldE_fails:
  assumes "I s"
    and "\<And>s x s'. I s \<Longrightarrow> x \<in> set xs \<Longrightarrow> f s x = Inr s' \<Longrightarrow> I s'"
    and "y \<in> set xs"
    and "\<And>s. I s \<Longrightarrow> \<exists>e. f s y = Inl e"
  shows "\<exists>e. foldE f s xs = Inl e"
  using assms(1,2,3)
proof (induction xs arbitrary: s)
  case Nil
  then show ?case by simp
next
  case (Cons x xs)
  show ?case
  proof (cases "f s x")
    case (Inl e)
    then show ?thesis by simp
  next
    case (Inr s1)
    from assms(4)[OF Cons.prems(1)] Inr have "x \<noteq> y" by auto
    with Cons.prems(3) have y: "y \<in> set xs" by simp
    have i1: "I s1" by (rule Cons.prems(2)[OF Cons.prems(1) _ Inr]) simp
    have step: "\<And>s x' s'. I s \<Longrightarrow> x' \<in> set xs \<Longrightarrow> f s x' = Inr s' \<Longrightarrow> I s'"
      by (rule Cons.prems(2)) simp_all
    have "\<exists>e. foldE f s1 xs = Inl e"
    proof (rule Cons.IH[OF i1 _ y])
      fix s x' s'
      assume "I s" "x' \<in> set xs" "f s x' = Inr s'"
      then show "I s'" by (rule step)
    qed
    then obtain e where "foldE f s1 xs = Inl e" by blast
    with Inr show ?thesis by simp
  qed
qed

lemma foldE_Inl_elem:
  assumes "foldE f s xs = Inl e" and "I s"
    and "\<And>s x s'. I s \<Longrightarrow> x \<in> set xs \<Longrightarrow> f s x = Inr s' \<Longrightarrow> I s'"
  shows "\<exists>x s0. x \<in> set xs \<and> I s0 \<and> f s0 x = Inl e"
  using assms
proof (induction xs arbitrary: s)
  case Nil
  then show ?case by simp
next
  case (Cons x xs)
  show ?case
  proof (cases "f s x")
    case (Inl e')
    with Cons.prems(1) have "f s x = Inl e" by simp
    with Cons.prems(2) have "x \<in> set (x # xs) \<and> I s \<and> f s x = Inl e" by simp
    then show ?thesis by blast
  next
    case (Inr s1)
    with Cons.prems(1) have 1: "foldE f s1 xs = Inl e" by simp
    have 2: "I s1" by (rule Cons.prems(3)[OF Cons.prems(2) _ Inr]) simp
    have step: "\<And>s x' s'. I s \<Longrightarrow> x' \<in> set xs \<Longrightarrow> f s x' = Inr s' \<Longrightarrow> I s'"
      by (rule Cons.prems(3)) simp_all
    have "\<exists>x s0. x \<in> set xs \<and> I s0 \<and> f s0 x = Inl e"
    proof (rule Cons.IH[OF 1 2])
      fix s x' s'
      assume "I s" "x' \<in> set xs" "f s x' = Inr s'"
      then show "I s'" by (rule step)
    qed
    then obtain x' s0 where "x' \<in> set xs" "I s0" "f s0 x' = Inl e" by blast
    then have "x' \<in> set (x # xs) \<and> I s0 \<and> f s0 x' = Inl e" by simp
    then show ?thesis by blast
  qed
qed

lemma process_operation_no_key:
  "map_of (schemas st) f = None \<Longrightarrow> process_operation ext f st operation = Inl TypeError"
  by (simp add: process_operation_def Let_def)

lemma process_operation_classify_Inl:
  "map_of (schemas st) f = Some ls \<Longrightarrow>
   classify_inputs (op_name operation) empty_buckets (op_inputs operation) = Inl e \<Longrightarrow>
   process_operation ext f st operation = Inl e"
  by (simp add: process_operation_def Let_def)

lemma process_operation_schemas:
  assumes "process_operation ext f st operation = Inr st'"
  shows "\<exists>ls. map_of (schemas st) f = Some ls \<and>
     schemas st' = AList.update f (ls @
        [''export const '' @ camelcase ext (op_name operation @ '' schema'') @ '' = '' @
         (if length (op_schemas operation) = 1 then hd (map snd (op_schemas operation))
          else toLitObject ext (op_schemas operation)) @ '';'']) (schemas st)"
proof -
  from assms obtain ls b where b: "classify_inputs (op_name operation) empty_buckets (op_inputs operation) = Inr b"
    and ls: "map_of (schemas st) f = Some ls"
    by (rule process_operation_Inr)
  show ?thesis
  proof (cases "op_type operation = ''sse''")
    case True
    with assms ls b have "schemas st' = AList.update f (ls @
        [''export const '' @ camelcase ext (op_name operation @ '' schema'') @ '' = '' @
         (if length (op_schemas operation) = 1 then hd (map snd (op_schemas operation))
          else toLitObject ext (op_schemas operation)) @ '';'']) (schemas st)"
      by (auto simp: process_operation_def Let_def)
    with ls show ?thesis by simp
  next
    case False
    from process_operation_standard[OF assms False b] ls show ?thesis
      by (simp add: foldl_add_variant_frame)
  qed
qed

lemma process_operation_keeps_key:
  "process_operation ext f st operation = Inr st' \<Longrightarrow> map_of (schemas st') f \<noteq> None"
  using process_operation_schemas[of ext f st operation st']
  by (auto simp: update_Some_unfold)

lemma process_operation_Inl:
  assumes "process_operation ext f st operation = Inl e" and "map_of (schemas st) f \<noteq> None"
  shows "\<exists>name p. (name, p) \<in> set (op_inputs operation) \<and> oi_source p \<notin> set input_sources \<and>
           e = unknown_source_error operation name p"
proof -
  from assms(2) obtain ls where ls: "map_of (schemas st) f = Some ls" by blast
  have "classify_inputs (op_name operation) empty_buckets (op_inputs operation) = Inl e"
  proof (cases "classify_inputs (op_name operation) empty_buckets (op_inputs operation)")
    case (Inl e')
    from process_operation_classify_Inl[OF ls Inl] assms(1) Inl show ?thesis by simp
  next
    case (Inr b)
    from process_operation_returns[OF ls Inr, of ext] assms(1) show ?thesis by auto
  qed
  from classify_inputs_Inl[OF this] show ?thesis by (simp add: unknown_source_error_def)
qed

lemma process_operation_unknown:
  assumes "(name, p) \<in> set (op_inputs operation)" "oi_source p \<notin> set input_sources"
  shows "\<exists>e. process_operation ext f st operation = Inl e"
proof -
  from classify_inputs_unknown[OF assms] obtain e where
    c: "classify_inputs (op_name operation) empty_buckets (op_inputs operation) = Inl e" by blast
  show ?thesis
  proof (cases "map_of (schemas st) f")
    case None
    from process_operation_no_key[OF None] show ?thesis by blast
  next
    case (Some ls)
    from process_operation_classify_Inl[OF Some c] show ?thesis by blast
  qed
qed

lemma process_group_Inl:
  assumes "process_group ext st grp = Inl e"
  shows "bad_input_error (snd grp) e"
proof -
  let ?f = "camelcase ext (fst grp)"
  let ?I = "\<lambda>s. map_of (schemas s) ?f \<noteq> None"
  from assms obtain st1 where f: "foldE (process_operation ext ?f) st1 (snd grp) = Inl e" and i: "?I st1"
    by (auto simp: process_group_def Let_def update_Some_unfold)
  have "\<exists>x s0. x \<in> set (snd grp) \<and> ?I s0 \<and> process_operation ext ?f s0 x = Inl e"
  proof (rule foldE_Inl_elem[OF f, where I = ?I])
    show "?I st1" by (rule i)
  next
    fix s x s'
    assume "process_operation ext ?f s x = Inr s'"
    then show "?I s'" by (rule process_operation_keeps_key)
  qed
  then obtain x s0 where x: "x \<in> set (snd grp)" "?I s0" "process_operation ext ?f s0 x = Inl e"
    by blast
  from process_operation_Inl[OF x(3) x(2)] x(1) show ?thesis
    unfolding bad_input_error_def by blast
qed

lemma process_group_unknown:
  assumes "operation \<in> set (snd grp)" "(name, p) \<in> set (op_inputs operation)"
    "oi_source p \<notin> set input_sources"
  shows "\<exists>e. process_group ext st grp = Inl e"
proof -
  let ?f = "camelcase ext (fst grp)"
  have "\<exists>e. foldE (process_operation ext ?f) st1 (snd grp) = Inl e" for st1
  proof (rule foldE_fails[where I = "\<lambda>s. True" and y = operation])
    show "operation \<in> set (snd grp)" by (rule assms(1))
  next
    fix s
    show "\<exists>e. process_operation ext ?f s operation = Inl e"
      by (rule process_operation_unknown[OF assms(2,3)])
  qed simp_all
  then show ?thesis by (simp add: process_group_def Let_def)
qed

lemma generateClientSdk_aborts:
  assumes "operation \<in> set (all_operations spec)" "(name, p) \<in> set (op_inputs operation)"
    "oi_source p \<notin> set input_sources"
  shows "\<exists>e. generateClientSdk ext spec = Inl e \<and> bad_input_error (all_operations spec) e"
proof -
  from assms(1) obtain grp where grp: "grp \<in> set (groups spec)" "operation \<in> set (snd grp)"
    by (auto simp: all_operations_def)
  have "\<exists>e. foldE (process_group ext) initial_state (groups spec) = Inl e"
  proof (rule foldE_fails[where I = "\<lambda>s. True" and y = grp])
    show "grp \<in> set (groups spec)" by (rule grp(1))
  next
    fix s
    show "\<exists>e. process_group ext s grp = Inl e"
      by (rule process_group_unknown[OF grp(2) assms(2,3)])
  qed simp_all
  then obtain e where e: "compile_groups ext spec = Inl e" by (auto simp: compile_groups_def)
  then have f: "foldE (process_group ext) initial_state (groups spec) = Inl e"
    by (simp add: compile_groups_def)
  have "\<exists>x s0. x \<in> set (groups spec) \<and> True \<and> process_group ext s0 x = Inl e"
    by (rule foldE_Inl_elem[OF f, where I = "\<lambda>s. True"]) simp_all
  then obtain x s0 where x: "x \<in> set (groups spec)" "process_group ext s0 x = Inl e" by blast
  from process_group_Inl[OF x(2)] x(1) have "bad_input_error (all_operations spec) e"
    unfolding bad_input_error_def all_operations_def by fastforce
  with e show ?thesis by (simp add: generateClientSdk_def)
qed

lemma classify_inputs_known:
  assumes "\<forall>kv \<in> set inputs. oi_source (snd kv) \<in> set input_sources"
  shows "\<exists>b. classify_inputs n b0 inputs = Inr b"
proof (cases "classify_inputs n b0 inputs")
  case (Inl e)
  from classify_inputs_Inl[OF Inl] assms show ?thesis by force
next
  case (Inr b)
  then show ?thesis by blast
qed

lemma buckets_of_input:
  assumes d: "distinct (map fst inputs)"
    and c: "classify_inputs n empty_buckets inputs = Inr b"
    and kv: "kv \<in> set inputs"
  shows "count_list (all_buckets b) (quoted (fst kv)) = (if oi_source (snd kv) = ''internal'' then 0 else 1) \<and>
     (quoted (fst kv) \<in> set (inputHeaders b) \<longleftrightarrow>
        oi_source (snd kv) = ''headers'' \<or> oi_source (snd kv) = ''header'') \<and>
     (quoted (fst kv) \<in> set (inputQuery b) \<longleftrightarrow> oi_source (snd kv) = ''query'') \<and>
     (quoted (fst kv) \<in> set (inputBody b) \<longleftrightarrow> oi_source (snd kv) = ''body'') \<and>
     (quoted (fst kv) \<in> set (inputParams b) \<longleftrightarrow> oi_source (snd kv) = ''path'')"
proof -
  obtain name p where nk: "kv = (name, p)" by (cases kv)
  from classify_inputs_Inr[OF c] have
    h: "inputHeaders b = names_with [''headers'', ''header''] inputs"
    and q: "inputQuery b = names_with [''query''] inputs"
    and bo: "inputBody b = names_with [''body''] inputs"
    and pa: "inputParams b = names_with [''path''] inputs"
    and known: "\<forall>kv \<in> set inputs. oi_source (snd kv) \<in> set input_sources"
    by (simp_all add: empty_buckets_def)
  from kv nk have mem: "(name, p) \<in> set inputs" by simp
  note cnt = count_names_with[OF d mem]
  from known kv nk have src: "oi_source p \<in> set input_sources" by auto
  have ch: "count_list (inputHeaders b) (quoted name) =
      (if oi_source p = ''headers'' \<or> oi_source p = ''header'' then 1 else 0)"
    unfolding h cnt by simp
  have cq: "count_list (inputQuery b) (quoted name) = (if oi_source p = ''query'' then 1 else 0)"
    unfolding q cnt by simp
  have cb: "count_list (inputBody b) (quoted name) = (if oi_source p = ''body'' then 1 else 0)"
    unfolding bo cnt by simp
  have cp: "count_list (inputParams b) (quoted name) = (if oi_source p = ''path'' then 1 else 0)"
    unfolding pa cnt by simp
  have total: "count_list (all_buckets b) (quoted name) = (if oi_source p = ''internal'' then 0 else 1)"
    using src unfolding all_buckets_def count_list_append ch cq cb cp
    by (auto simp: input_sources_def)
  have m: "\<And>xs. (quoted name \<in> set xs) = (count_list xs (quoted name) \<noteq> 0)"
    by (simp add: count_list_0_iff)
  show ?thesis unfolding nk fst_conv snd_conv m ch cq cb cp total by simp
qed

text \<open>
  Claim C6: when the field names of an operation are distinct (they are the keys of a record)
  and every source is one of the six known names, the classification returns, and each field
  is counted once over the four buckets, in the bucket of its source, or not at all when the
  source is \<open>internal\<close>. When a field of an operation has any other source, the
  classification of the operation raises the error that names the source, the field and the
  operation, and \<open>generateClientSdk\<close> on a specification that holds the operation returns
  no artifact but such an error.
\<close>

theorem input_buckets_exhaustive:
  "(distinct (map fst (op_inputs operation)) \<and>
    (\<forall>kv \<in> set (op_inputs operation). oi_source (snd kv) \<in> set input_sources) \<longrightarrow>
      (\<exists>b. classify_inputs (op_name operation) empty_buckets (op_inputs operation) = Inr b \<and>
         (\<forall>kv \<in> set (op_inputs operation).
            count_list (all_buckets b) (quoted (fst kv)) =
              (if oi_source (snd kv) = ''internal'' then 0 else 1) \<and>
            (quoted (fst kv) \<in> set (inputHeaders b) \<longleftrightarrow>
               oi_source (snd kv) = ''headers'' \<or> oi_source (snd kv) = ''header'') \<and>
            (quoted (fst kv) \<in> set (inputQuery b) \<longleftrightarrow> oi_source (snd kv) = ''query'') \<and>
            (quoted (fst kv) \<in> set (inputBody b) \<longleftrightarrow> oi_source (snd kv) = ''body'') \<and>
            (quoted (fst kv) \<in> set (inputParams b) \<longleftrightarrow> oi_source (snd kv) = ''path'')))) \<and>
   (bad \<in> set (all_operations spec) \<and> (name, p) \<in> set (op_inputs bad) \<and>
    oi_source p \<notin> set input_sources \<longrightarrow>
      (\<exists>name' p'. (name', p') \<in> set (op_inputs bad) \<and> oi_source p' \<notin> set input_sources \<and>
         classify_inputs (op_name bad) empty_buckets (op_inputs bad) =
           Inl (unknown_source_error bad name' p')) \<and>
      (\<exists>operation' name' p'. operation' \<in> set (all_operations spec) \<and>
         (name', p') \<in> set (op_inputs operation') \<and> oi_source p' \<notin> set input_sources \<and>
         generateClientSdk ext spec = Inl (unknown_source_error operation' name' p')))"
proof (intro conjI impI)
  assume a: "distinct (map fst (op_inputs operation)) \<and>
    (\<forall>kv \<in> set (op_inputs operation). oi_source (snd kv) \<in> set input_sources)"
  then obtain b where b: "classify_inputs (op_name operation) empty_buckets (op_inputs operation) = Inr b"
    using classify_inputs_known by blast
  from a have d: "distinct (map fst (op_inputs operation))" by simp
  from buckets_of_input[OF d b] b
  show "\<exists>b. classify_inputs (op_name operation) empty_buckets (op_inputs operation) = Inr b \<and>
         (\<forall>kv \<in> set (op_inputs operation).
            count_list (all_buckets b) (quoted (fst kv)) =
              (if oi_source (snd kv) = ''internal'' then 0 else 1) \<and>
            (quoted (fst kv) \<in> set (inputHeaders b) \<longleftrightarrow>
               oi_source (snd kv) = ''headers'' \<or> oi_source (snd kv) = ''header'') \<and>
            (quoted (fst kv) \<in> set (inputQuery b) \<longleftrightarrow> oi_source (snd kv) = ''query'') \<and>
            (quoted (fst kv) \<in> set (inputBody b) \<longleftrightarrow> oi_source (snd kv) = ''body'') \<and>
            (quoted (fst kv) \<in> set (inputParams b) \<longleftrightarrow> oi_source (snd kv) = ''path''))"
    by blast
next
  assume a: "bad \<in> set (all_operations spec) \<and> (name, p) \<in> set (op_inputs bad) \<and>
    oi_source p \<notin> set input_sources"
  then obtain e where "classify_inputs (op_name bad) empty_buckets (op_inputs bad) = Inl e"
    using classify_inputs_unknown by blast
  from classify_inputs_Inl[OF this] this
  show "\<exists>name' p'. (name', p') \<in> set (op_inputs bad) \<and> oi_source p' \<notin> set input_sources \<and>
         classify_inputs (op_name bad) empty_buckets (op_inputs bad) =
           Inl (unknown_source_error bad name' p')"
    unfolding unknown_source_error_def by blast
next
  assume a: "bad \<in> set (all_operations spec) \<and> (name, p) \<in> set (op_inputs bad) \<and>
    oi_source p \<notin> set input_sources"
  then have "\<exists>e. generateClientSdk ext spec = Inl e \<and> bad_input_error (all_operations spec) e"
    using generateClientSdk_aborts by blast
  then show "\<exists>operation' name' p'. operation' \<in> set (all_operations spec) \<and>
         (name', p') \<in> set (op_inputs operation') \<and> oi_source p' \<notin> set input_sources \<and>
         generateClientSdk ext spec = Inl (unknown_source_error operation' name' p')"
    unfolding bad_input_error_def by blast
qed

theorem input_buckets_exhaustive_witness:
  "(\<exists>b. classify_inputs (op_name create_item) empty_buckets (op_inputs create_item) = Inr b \<and>
       map fst (op_inputs create_item) = [''name'', ''x-trace'', ''tenant''] \<and>
       count_list (all_buckets b) (quoted ''name'') = 1 \<and> quoted ''name'' \<in> set (inputBody b) \<and>
       count_list (all_buckets b) (quoted ''x-trace'') = 1 \<and> quoted ''x-trace'' \<in> set (inputHeaders b) \<and>
       count_list (all_buckets b) (quoted ''tenant'') = 0) \<and>
   cookie_operation \<in> set (all_operations cookie_spec) \<and>
   generateClientSdk example_externals cookie_spec =
     Inl (Error (''Unknown source cookie in session {'' @ [CHR 0x22] @ ''source'' @ [CHR 0x22] @
                 '':'' @ [CHR 0x22] @ ''cookie'' @ [CHR 0x22] @ '','' @ [CHR 0x22] @ ''schema'' @
                 [CHR 0x22] @ '':'' @ [CHR 0x22] @ ''z.string()'' @ [CHR 0x22] @ ''} in list items''))"
proof -
  note inst = input_buckets_exhaustive[of create_item cookie_operation cookie_spec "''session''"
      "\<lparr>oi_source = ''cookie'', oi_schema = ''z.string()''\<rparr>" example_externals]
  have h1: "distinct (map fst (op_inputs create_item)) \<and>
    (\<forall>kv \<in> set (op_inputs create_item). oi_source (snd kv) \<in> set input_sources)"
    by (simp add: create_item_def input_sources_def)
  have h2: "cookie_operation \<in> set (all_operations cookie_spec) \<and>
     (''session'', \<lparr>oi_source = ''cookie'', oi_schema = ''z.string()''\<rparr>) \<in> set (op_inputs cookie_operation) \<and>
     oi_source \<lparr>oi_source = ''cookie'', oi_schema = ''z.string()''\<rparr> \<notin> set input_sources"
    by (simp add: all_operations_def cookie_spec_def cookie_operation_def input_sources_def)
  from inst h1 obtain b where b: "classify_inputs (op_name create_item) empty_buckets (op_inputs create_item) = Inr b"
    and all: "\<forall>kv \<in> set (op_inputs create_item).
            count_list (all_buckets b) (quoted (fst kv)) =
              (if oi_source (snd kv) = ''internal'' then 0 else 1) \<and>
            (quoted (fst kv) \<in> set (inputHeaders b) \<longleftrightarrow>
               oi_source (snd kv) = ''headers'' \<or> oi_source (snd kv) = ''header'') \<and>
            (quoted (fst kv) \<in> set (inputQuery b) \<longleftrightarrow> oi_source (snd kv) = ''query'') \<and>
            (quoted (fst kv) \<in> set (inputBody b) \<longleftrightarrow> oi_source (snd kv) = ''body'') \<and>
            (quoted (fst kv) \<in> set (inputParams b) \<longleftrightarrow> oi_source (snd kv) = ''path'')"
    by blast
  from all have part1: "map fst (op_inputs create_item) = [''name'', ''x-trace'', ''tenant''] \<and>
       count_list (all_buckets b) (quoted ''name'') = 1 \<and> quoted ''name'' \<in> set (inputBody b) \<and>
       count_list (all_buckets b) (quoted ''x-trace'') = 1 \<and> quoted ''x-trace'' \<in> set (inputHeaders b) \<and>
       count_list (all_buckets b) (quoted ''tenant'') = 0"
    by (simp add: create_item_def)
  from inst h2 obtain operation' name' p' where
    o: "operation' \<in> set (all_operations cookie_spec)" "(name', p') \<in> set (op_inputs operation')"
       "oi_source p' \<notin> set input_sources"
       "generateClientSdk example_externals cookie_spec = Inl (unknown_source_error operation' name' p')"
    by blast
  from o(1,2,3) have "operation' = cookie_operation \<and> name' = ''session'' \<and>
      p' = \<lparr>oi_source = ''cookie'', oi_schema = ''z.string()''\<rparr>"
    by (auto simp: all_operations_def cookie_spec_def cookie_operation_def create_item_def
        input_sources_def)
  with o(4) have part2: "generateClientSdk example_externals cookie_spec =
     Inl (Error (''Unknown source cookie in session {'' @ [CHR 0x22] @ ''source'' @ [CHR 0x22] @
                 '':'' @ [CHR 0x22] @ ''cookie'' @ [CHR 0x22] @ '','' @ [CHR 0x22] @ ''schema'' @
                 [CHR 0x22] @ '':'' @ [CHR 0x22] @ ''z.string()'' @ [CHR 0x22] @ ''} in list items''))"
    by (simp add: unknown_source_error_def cookie_operation_def list_items_def stringify_input_def
        obj_def QuoteJSONString_def escape_char_def)
  have e1: "\<exists>b. classify_inputs (op_name create_item) empty_buckets (op_inputs create_item) = Inr b \<and>
       map fst (op_inputs create_item) = [''name'', ''x-trace'', ''tenant''] \<and>
       count_list (all_buckets b) (quoted ''name'') = 1 \<and> quoted ''name'' \<in> set (inputBody b) \<and>
       count_list (all_buckets b) (quoted ''x-trace'') = 1 \<and> quoted ''x-trace'' \<in> set (inputHeaders b) \<and>
       count_list (all_buckets b) (quoted ''tenant'') = 0"
    by (rule exI[of _ b]) (rule conjI[OF b part1])
  show ?thesis by (rule conjI[OF e1 conjI[OF conjunct1[OF h2] part2]])
qed

section \<open>Error identifiers and named imports\<close>

text \<open>
  The two accumulators over an operation, a group and the specification.
\<close>

lemma process_operation_errors:
  assumes "process_operation ext f st operation = Inr st'"
  shows "errors st' = errors st @ (if op_type operation = ''sse'' then [] else declared_errors operation)"
proof -
  from assms obtain b where b: "classify_inputs (op_name operation) empty_buckets (op_inputs operation) = Inr b"
    by (auto elim: process_operation_Inr)
  show ?thesis
  proof (cases "op_type operation = ''sse''")
    case True
    from process_operation_sse(4)[OF assms True b] True show ?thesis by simp
  next
    case False
    from process_operation_standard[OF assms False b] False show ?thesis
      by (simp add: foldl_add_variant_frame declared_errors_def)
  qed
qed

lemma process_operation_schemasImports:
  assumes "process_operation ext f st operation = Inr st'"
  shows "schemasImports st' = schemasImports st @ named_imports_of operation"
proof -
  from assms obtain ls b where b: "classify_inputs (op_name operation) empty_buckets (op_inputs operation) = Inr b"
    and ls: "map_of (schemas st) f = Some ls"
    by (rule process_operation_Inr)
  show ?thesis
  proof (cases "op_type operation = ''sse''")
    case True
    with assms ls b show ?thesis
      by (auto simp: process_operation_def Let_def named_imports_of_def)
  next
    case False
    from process_operation_standard[OF assms False b] show ?thesis
      by (simp add: foldl_add_variant_frame named_imports_of_def)
  qed
qed

lemma process_group_errors:
  assumes "process_group ext st grp = Inr st'"
  shows "errors st' = errors st @
     concat (map (\<lambda>operation. if op_type operation = ''sse'' then [] else declared_errors operation) (snd grp))"
proof -
  let ?f = "camelcase ext (fst grp)"
  from assms obtain st1 where f: "foldE (process_operation ext ?f) st1 (snd grp) = Inr st'"
    and e: "errors st1 = errors st"
    by (auto simp: process_group_def Let_def)
  have "errors st' = errors st1 @
     concat (map (\<lambda>operation. if op_type operation = ''sse'' then [] else declared_errors operation) (snd grp))"
  proof (rule foldE_append[OF _ f])
    fix s x s'
    assume "process_operation ext ?f s x = Inr s'"
    then show "errors s' = errors s @ (if op_type x = ''sse'' then [] else declared_errors x)"
      by (rule process_operation_errors)
  qed
  with e show ?thesis by simp
qed

lemma process_group_schemasImports:
  assumes "process_group ext st grp = Inr st'"
  shows "schemasImports st' = schemasImports st @ concat (map named_imports_of (snd grp))"
proof -
  let ?f = "camelcase ext (fst grp)"
  from assms obtain st1 where f: "foldE (process_operation ext ?f) st1 (snd grp) = Inr st'"
    and e: "schemasImports st1 = schemasImports st"
    by (auto simp: process_group_def Let_def)
  have "schemasImports st' = schemasImports st1 @ concat (map named_imports_of (snd grp))"
  proof (rule foldE_append[OF _ f])
    fix s x s'
    assume "process_operation ext ?f s x = Inr s'"
    then show "schemasImports s' = schemasImports s @ named_imports_of x"
      by (rule process_operation_schemasImports)
  qed
  with e show ?thesis by simp
qed

lemma concat_map_if:
  "concat (map (\<lambda>x. if P x then [] else h x) xs) = concat (map h (filter (\<lambda>x. \<not> P x) xs))"
  by (induction xs) simp_all

lemma concat_concat_map:
  "concat (map (\<lambda>g. concat (map h (snd g))) gs) = concat (map h (concat (map snd gs)))"
  by (induction gs) simp_all

lemma concat_concat_filter:
  "concat (map (\<lambda>g. concat (map h (filter P (snd g)))) gs) =
   concat (map h (filter P (concat (map snd gs))))"
  by (induction gs) simp_all

lemma compile_groups_errors:
  assumes "compile_groups ext spec = Inr st"
  shows "errors st = concat (map declared_errors (standard_operations spec))"
proof -
  from assms have f: "foldE (process_group ext) initial_state (groups spec) = Inr st"
    by (simp add: compile_groups_def)
  have "errors st = errors initial_state @
     concat (map (\<lambda>grp. concat (map (\<lambda>operation. if op_type operation = ''sse'' then []
                                         else declared_errors operation) (snd grp))) (groups spec))"
  proof (rule foldE_append[OF _ f])
    fix s x s'
    assume "process_group ext s x = Inr s'"
    then show "errors s' = errors s @
       concat (map (\<lambda>operation. if op_type operation = ''sse'' then [] else declared_errors operation) (snd x))"
      by (rule process_group_errors)
  qed
  then show ?thesis
    by (simp add: initial_state_def concat_concat_filter concat_map_if standard_operations_def
        all_operations_def)
qed

lemma compile_groups_schemasImports:
  assumes "compile_groups ext spec = Inr st"
  shows "schemasImports st = all_named_imports spec"
proof -
  from assms have f: "foldE (process_group ext) initial_state (groups spec) = Inr st"
    by (simp add: compile_groups_def)
  have "schemasImports st = schemasImports initial_state @
     concat (map (\<lambda>grp. concat (map named_imports_of (snd grp))) (groups spec))"
  proof (rule foldE_append[OF _ f])
    fix s x s'
    assume "process_group ext s x = Inr s'"
    then show "schemasImports s' = schemasImports s @ concat (map named_imports_of (snd x))"
      by (rule process_group_schemasImports)
  qed
  then show ?thesis
    by (simp add: initial_state_def concat_concat_map all_named_imports_def all_operations_def)
qed

text \<open>
  \<open>removeDuplicates\<close> keeps every element once.
\<close>

lemma removeDuplicates_distinct: "distinct (removeDuplicates xs)"
  by (simp add: removeDuplicates_def)

lemma removeDuplicates_set: "set (removeDuplicates xs) = set xs"
  by (simp add: removeDuplicates_def)

lemma count_list_distinct: "distinct xs \<Longrightarrow> x \<in> set xs \<Longrightarrow> count_list xs x = 1"
  by (induction xs) (auto simp: count_list_0_iff)

lemma removeDuplicates_count:
  "count_list (removeDuplicates xs) x = (if x \<in> set xs then 1 else 0)"
proof (cases "x \<in> set xs")
  case True
  then have "x \<in> set (removeDuplicates xs)" by (simp add: removeDuplicates_set)
  with removeDuplicates_distinct[of xs] have "count_list (removeDuplicates xs) x = 1"
    by (simp add: count_list_distinct)
  with True show ?thesis by simp
next
  case False
  then show ?thesis by (simp add: count_list_0_iff removeDuplicates_set)
qed

lemmas example_defs =
  compile_groups_def process_group_def process_operation_def
  example_externals_def list_items_def create_item_def stream_events_def initial_state_def
  new_Emitter_def new_SchemaEndpoint_def Let_def add_variant_def toUpperCase_def
  empty_buckets_def quoted_def Emitter_addEndpoint_def Emitter_addImport_def
  SchemaEndpoint_addEndpoint_def SchemaEndpoint_addImport_def group_import_def

lemma generateClientSdk_Inr:
  "generateClientSdk ext spec = Inr files \<longleftrightarrow>
     (\<exists>st. compile_groups ext spec = Inr st \<and> files = artifacts ext spec st)"
  by (auto simp: generateClientSdk_def split: sum.splits)

lemma endpoints_artifact:
  "(''endpoints.ts'',
     Emitter_complete (Emitter_addImport (emitter st) (errors_import_line (errors st))))
   \<in> set (artifacts ext spec st)"
  by (simp add: artifacts_def)

text \<open>
  Claim C7, amended: a standard operation adds one registry line per schema variant whose
  error type is the error identifiers of the operation (the one identifier \<open>ServerError\<close> in
  their place when the list is absent; none for an empty list), then
  \<open>ParseError<typeof schemaRef>\<close> with the variant selected when there are several, joined by
  \<open>|\<close>. The import line of \<open>endpoints.ts\<close> lists the identifiers declared by the standard
  operations of all groups, each exactly once.
\<close>

theorem error_union_and_imports:
  "(process_operation ext f st operation = Inr st' \<and> op_type operation \<noteq> ''sse'' \<longrightarrow>
      em_endpoints (emitter st') =
        em_endpoints (emitter st) @
        map (\<lambda>t. registry_line
               ((if 1 < length (op_schemas operation) \<and> t \<noteq> ''json'' then t @ '' '' else []) @
                toUpperCase (trigger_method operation) @ '' '' @ trigger_path operation)
               (''{input: z.infer<typeof '' @ schemaRef_of ext f operation @
                (if 1 < length (op_schemas operation) then ''.'' @ t else []) @
                ''>; output: '' @ output_use operation @ ''; error: '' @
                join ''|''
                  ((case op_errors operation of None \<Rightarrow> [''ServerError''] | Some es \<Rightarrow> es) @
                   [''ParseError<typeof '' @ schemaRef_of ext f operation @
                    (if 1 < length (op_schemas operation) then ''.'' @ t else []) @ ''>'']) @
                ''}''))
          (map fst (op_schemas operation))) \<and>
   (generateClientSdk ext spec = Inr files \<longrightarrow>
      (\<exists>st. compile_groups ext spec = Inr st \<and>
         errors st = concat (map declared_errors (standard_operations spec)) \<and>
         (''endpoints.ts'',
            Emitter_complete
              (Emitter_addImport (emitter st)
                 (''import type { '' @ join '', '' (removeDuplicates (errors st)) @ '' } from '' @
                  [CHR 0x27] @ ''./response'' @ [CHR 0x27] @ '';''))) \<in> set files \<and>
         (\<forall>x. count_list (removeDuplicates (errors st)) x = (if x \<in> set (errors st) then 1 else 0))))"
proof (intro conjI impI)
  assume a: "process_operation ext f st operation = Inr st' \<and> op_type operation \<noteq> ''sse''"
  then have h: "process_operation ext f st operation = Inr st'" and t: "op_type operation \<noteq> ''sse''"
    by simp_all
  from h obtain b where b: "classify_inputs (op_name operation) empty_buckets (op_inputs operation) = Inr b"
    by (auto elim: process_operation_Inr)
  show "em_endpoints (emitter st') =
        em_endpoints (emitter st) @
        map (\<lambda>t. registry_line
               ((if 1 < length (op_schemas operation) \<and> t \<noteq> ''json'' then t @ '' '' else []) @
                toUpperCase (trigger_method operation) @ '' '' @ trigger_path operation)
               (''{input: z.infer<typeof '' @ schemaRef_of ext f operation @
                (if 1 < length (op_schemas operation) then ''.'' @ t else []) @
                ''>; output: '' @ output_use operation @ ''; error: '' @
                join ''|''
                  ((case op_errors operation of None \<Rightarrow> [''ServerError''] | Some es \<Rightarrow> es) @
                   [''ParseError<typeof '' @ schemaRef_of ext f operation @
                    (if 1 < length (op_schemas operation) then ''.'' @ t else []) @ ''>'']) @
                ''}''))
          (map fst (op_schemas operation))"
    by (subst process_operation_standard[OF h t b])
       (simp add: foldl_add_variant_emitter Emitter_addImport_def error_union_def)
next
  assume "generateClientSdk ext spec = Inr files"
  then obtain st where st: "compile_groups ext spec = Inr st" and files: "files = artifacts ext spec st"
    by (auto simp: generateClientSdk_Inr)
  have "(''endpoints.ts'',
            Emitter_complete
              (Emitter_addImport (emitter st)
                 (''import type { '' @ join '', '' (removeDuplicates (errors st)) @ '' } from '' @
                  [CHR 0x27] @ ''./response'' @ [CHR 0x27] @ '';''))) \<in> set files"
    using endpoints_artifact[of st ext spec] unfolding files errors_import_line_def by simp
  with st compile_groups_errors[OF st] removeDuplicates_count
  show "\<exists>st. compile_groups ext spec = Inr st \<and>
         errors st = concat (map declared_errors (standard_operations spec)) \<and>
         (''endpoints.ts'',
            Emitter_complete
              (Emitter_addImport (emitter st)
                 (''import type { '' @ join '', '' (removeDuplicates (errors st)) @ '' } from '' @
                  [CHR 0x27] @ ''./response'' @ [CHR 0x27] @ '';''))) \<in> set files \<and>
         (\<forall>x. count_list (removeDuplicates (errors st)) x = (if x \<in> set (errors st) then 1 else 0))"
    by blast
qed

lemma example_compiles: "\<exists>st. compile_groups example_externals example_spec = Inr st"
  by (simp add: example_defs example_spec_def)

theorem error_union_and_imports_witness:
  "(\<exists>st'. process_operation example_externals ''items'' items_state create_item = Inr st' \<and>
      em_endpoints (emitter st') =
        [registry_line ''POST /items''
           ''{input: z.infer<typeof items.createItemSchema.json>; output: CreateItem; error: NotFound|Conflict|ParseError<typeof items.createItemSchema.json>}'',
         registry_line ''formdata POST /items''
           ''{input: z.infer<typeof items.createItemSchema.formdata>; output: CreateItem; error: NotFound|Conflict|ParseError<typeof items.createItemSchema.formdata>}'']) \<and>
   (\<exists>files st. generateClientSdk example_externals example_spec = Inr files \<and>
      compile_groups example_externals example_spec = Inr st \<and>
      errors st = [''NotFound'', ''NotFound'', ''Conflict''] \<and>
      (''endpoints.ts'',
         Emitter_complete
           (Emitter_addImport (emitter st)
              (''import type { NotFound, Conflict } from '' @ [CHR 0x27] @ ''./response'' @
               [CHR 0x27] @ '';''))) \<in> set files)"
proof -
  have "map_of (schemas items_state) ''items'' = Some []"
    by (simp add: items_state_def initial_state_def)
  from process_operation_returns[OF this create_item_classified]
  obtain st' where h: "process_operation example_externals ''items'' items_state create_item = Inr st'"
    by blast
  have t: "op_type create_item \<noteq> ''sse''" by (simp add: create_item_def)
  have e: "em_endpoints (emitter items_state) = []"
    by (simp add: items_state_def initial_state_def new_Emitter_def)
  note inst1 = error_union_and_imports[of example_externals "''items''" items_state create_item st'
      example_spec, THEN conjunct1, rule_format, OF conjI[OF h t]]
  have p1: "em_endpoints (emitter st') =
        [registry_line ''POST /items''
           ''{input: z.infer<typeof items.createItemSchema.json>; output: CreateItem; error: NotFound|Conflict|ParseError<typeof items.createItemSchema.json>}'',
         registry_line ''formdata POST /items''
           ''{input: z.infer<typeof items.createItemSchema.formdata>; output: CreateItem; error: NotFound|Conflict|ParseError<typeof items.createItemSchema.formdata>}'']"
    unfolding inst1 e
    by (simp add: create_item_def toUpperCase_def schemaRef_of_def example_externals_def)
  obtain st0 where st0: "compile_groups example_externals example_spec = Inr st0"
    using example_compiles by blast
  then have g: "generateClientSdk example_externals example_spec = Inr (artifacts example_externals example_spec st0)"
    by (simp add: generateClientSdk_def)
  from error_union_and_imports[of example_externals "''items''" items_state create_item st'
      example_spec "artifacts example_externals example_spec st0", THEN conjunct2, rule_format, OF g]
  obtain st where st: "compile_groups example_externals example_spec = Inr st"
    "errors st = concat (map declared_errors (standard_operations example_spec))"
    "(''endpoints.ts'',
            Emitter_complete
              (Emitter_addImport (emitter st)
                 (''import type { '' @ join '', '' (removeDuplicates (errors st)) @ '' } from '' @
                  [CHR 0x27] @ ''./response'' @ [CHR 0x27] @ '';''))) \<in> set (artifacts example_externals example_spec st0)"
    by blast
  have er: "errors st = [''NotFound'', ''NotFound'', ''Conflict'']"
    unfolding st(2)
    by (simp add: standard_operations_def all_operations_def example_spec_def declared_errors_def
        list_items_def create_item_def stream_events_def)
  have rd: "join '', '' (removeDuplicates [''NotFound'', ''NotFound'', ''Conflict'']) = ''NotFound, Conflict''"
    by (simp add: removeDuplicates_def)
  from st(3) have p2: "(''endpoints.ts'',
         Emitter_complete
           (Emitter_addImport (emitter st)
              (''import type { NotFound, Conflict } from '' @ [CHR 0x27] @ ''./response'' @
               [CHR 0x27] @ '';''))) \<in> set (artifacts example_externals example_spec st0)"
    unfolding er rd by simp
  have a: "\<exists>st'. process_operation example_externals ''items'' items_state create_item = Inr st' \<and>
      em_endpoints (emitter st') =
        [registry_line ''POST /items''
           ''{input: z.infer<typeof items.createItemSchema.json>; output: CreateItem; error: NotFound|Conflict|ParseError<typeof items.createItemSchema.json>}'',
         registry_line ''formdata POST /items''
           ''{input: z.infer<typeof items.createItemSchema.formdata>; output: CreateItem; error: NotFound|Conflict|ParseError<typeof items.createItemSchema.formdata>}'']"
    by (rule exI[of _ st']) (rule conjI[OF h p1])
  have b: "\<exists>files st. generateClientSdk example_externals example_spec = Inr files \<and>
      compile_groups example_externals example_spec = Inr st \<and>
      errors st = [''NotFound'', ''NotFound'', ''Conflict''] \<and>
      (''endpoints.ts'',
         Emitter_complete
           (Emitter_addImport (emitter st)
              (''import type { NotFound, Conflict } from '' @ [CHR 0x27] @ ''./response'' @
               [CHR 0x27] @ '';''))) \<in> set files"
    by (rule exI[of _ "artifacts example_externals example_spec st0"], rule exI[of _ st])
       (rule conjI[OF g conjI[OF st(1) conjI[OF er p2]]])
  show ?thesis by (rule conjI[OF a b])
qed

text \<open>
  Claim C7, as stated, fails: with an empty list of errors the error type is the parse error
  alone, with no fallback; with no list the fallback \<open>ServerError\<close> stands in the error type,
  and the import line lists no identifier.
\<close>

theorem error_fallback_counterexample:
  "(\<exists>st. compile_groups example_externals empty_errors_spec = Inr st \<and>
      em_endpoints (emitter st) =
        [registry_line ''GET /items''
           ''{input: z.infer<typeof items.listItemsSchema>; output: ListItems; error: ParseError<typeof items.listItemsSchema>}'']) \<and>
   (\<exists>st. compile_groups example_externals absent_errors_spec = Inr st \<and>
      em_endpoints (emitter st) =
        [registry_line ''GET /items''
           ''{input: z.infer<typeof items.listItemsSchema>; output: ListItems; error: ServerError|ParseError<typeof items.listItemsSchema>}''] \<and>
      errors_import_line (errors st) =
        ''import type {  } from '' @ [CHR 0x27] @ ''./response'' @ [CHR 0x27] @ '';'')"
  by (simp add: example_defs empty_errors_spec_def absent_errors_spec_def registry_line_def
      error_union_def errors_import_line_def removeDuplicates_def)

section \<open>The import line of the schema modules\<close>

lemma trim_id:
  assumes "s \<noteq> []" "\<not> is_whitespace (hd s)" "\<not> is_whitespace (last s)"
  shows "trim s = s"
proof -
  from assms(1,2) have 1: "dropWhile is_whitespace s = s" by (cases s) simp_all
  from assms(1,3) have 2: "dropWhile is_whitespace (rev s) = rev s"
    by (cases "rev s") (simp_all add: hd_rev[symmetric])
  show ?thesis by (simp add: trim_def 1 2)
qed

lemma zod_import_line_trim:
  assumes "si \<noteq> []"
  shows "trim (zod_import_line si) = zod_import_line si" and "zod_import_line si \<noteq> []"
proof -
  have l: "zod_import_line si = ''import {'' @ join '','' (removeDuplicates si) @ ''} from '' @
           [CHR 0x27] @ ''../zod'' @ [CHR 0x27] @ '';''"
    using assms by (simp add: zod_import_line_def)
  show "zod_import_line si \<noteq> []" unfolding l by simp
  show "trim (zod_import_line si) = zod_import_line si"
    unfolding l by (rule trim_id) (simp_all add: is_whitespace_def)
qed

lemma join_Cons: "join sep (x # ys) = x @ (if ys = [] then [] else sep @ join sep ys)"
  by (cases ys) simp_all

lemma schema_module_prefix:
  assumes "si \<noteq> []"
  shows "\<exists>rest. schema_module spec si v = zod_import_line si @ ''\<newline>'' @ rest"
proof -
  obtain ys where ys: "filter (\<lambda>it. it \<noteq> [])
          (map trim
             ([zod_import_line si,
               (case commonZod spec of
                  None \<Rightarrow> []
                | Some c \<Rightarrow>
                    if c = [] then []
                    else ''import * as commonZod from '' @ [CHR 0x22] @ ''../zod'' @
                         [CHR 0x22] @ '';'')] @ v)) = zod_import_line si # ys"
    using zod_import_line_trim[OF assms] by simp
  show ?thesis
  proof (cases "ys = []")
    case True
    then show ?thesis unfolding schema_module_def ys by simp
  next
    case False
    then show ?thesis unfolding schema_module_def ys join_Cons by simp
  qed
qed

lemma foldE_preserves:
  assumes "\<And>s x s'. f s x = Inr s' \<Longrightarrow> p s' = p s" and "foldE f s xs = Inr s'"
  shows "p s' = p s"
  using assms(2)
proof (induction xs arbitrary: s)
  case Nil
  then show ?case by simp
next
  case (Cons x xs)
  then obtain s1 where s1: "f s x = Inr s1" "foldE f s1 xs = Inr s'"
    by (auto split: sum.splits)
  from Cons.IH[OF s1(2)] assms(1)[OF s1(1)] show ?case by simp
qed

lemma foldE_grows:
  assumes "\<And>s x s'. f s x = Inr s' \<Longrightarrow> p s \<subseteq> p s' \<and> g x \<in> p s'" and "foldE f s xs = Inr s'"
  shows "p s \<subseteq> p s' \<and> g ` set xs \<subseteq> p s'"
  using assms(2)
proof (induction xs arbitrary: s)
  case Nil
  then show ?case by simp
next
  case (Cons x xs)
  then obtain s1 where s1: "f s x = Inr s1" "foldE f s1 xs = Inr s'"
    by (auto split: sum.splits)
  from Cons.IH[OF s1(2)] assms(1)[OF s1(1)] show ?case by auto
qed

lemma process_operation_keys:
  assumes "process_operation ext f st operation = Inr st'"
  shows "fst ` set (schemas st') = fst ` set (schemas st)"
proof -
  from process_operation_schemas[OF assms] obtain ls v where
    ls: "map_of (schemas st) f = Some ls" and s: "schemas st' = AList.update f v (schemas st)"
    by blast
  from ls have "f \<in> fst ` set (schemas st)" by (rule map_of_SomeD[THEN rev_image_eqI]) simp
  with s show ?thesis by (auto simp: dom_update)
qed

lemma process_group_keys:
  assumes "process_group ext st grp = Inr st'"
  shows "fst ` set (schemas st) \<subseteq> fst ` set (schemas st') \<and>
         camelcase ext (fst grp) \<in> fst ` set (schemas st')"
proof -
  let ?f = "camelcase ext (fst grp)"
  from assms obtain st1 where f: "foldE (process_operation ext ?f) st1 (snd grp) = Inr st'"
    and k: "fst ` set (schemas st1) = insert ?f (fst ` set (schemas st))"
    by (auto simp: process_group_def Let_def dom_update)
  have "fst ` set (schemas st') = fst ` set (schemas st1)"
  proof (rule foldE_preserves[OF _ f])
    fix s x s'
    assume "process_operation ext ?f s x = Inr s'"
    then show "fst ` set (schemas s') = fst ` set (schemas s)" by (rule process_operation_keys)
  qed
  with k show ?thesis by auto
qed

lemma compile_groups_keys:
  assumes "compile_groups ext spec = Inr st" and "grp \<in> set (groups spec)"
  shows "camelcase ext (fst grp) \<in> fst ` set (schemas st)"
proof -
  from assms(1) have f: "foldE (process_group ext) initial_state (groups spec) = Inr st"
    by (simp add: compile_groups_def)
  have "fst ` set (schemas initial_state) \<subseteq> fst ` set (schemas st) \<and>
        (\<lambda>grp. camelcase ext (fst grp)) ` set (groups spec) \<subseteq> fst ` set (schemas st)"
  proof (rule foldE_grows[OF _ f])
    fix s x s'
    assume "process_group ext s x = Inr s'"
    then show "fst ` set (schemas s) \<subseteq> fst ` set (schemas s') \<and>
       camelcase ext (fst x) \<in> fst ` set (schemas s')"
      by (rule process_group_keys)
  qed
  with assms(2) show ?thesis by auto
qed

text \<open>
  The lines of a schema module: the shared import line when there is a named import, the import
  of the common module when \<open>spec.commonZod\<close> is a non-empty string, then the lines of the
  group, which begin with the import of \<open>zod\<close> (line 127).
\<close>

lemma join_lines:
  "join ''\<newline>'' (x # ys) @ ''\<newline>'' =
     x @ ''\<newline>'' @ (if ys = [] then [] else join ''\<newline>'' ys @ ''\<newline>'')"
  by (cases ys) simp_all

lemma trim_Nil: "trim [] = []"
  by (simp add: trim_def)

lemma schema_module_lines:
  fixes spec si vs
  defines "z \<equiv> ''import z from '' @ [CHR 0x27] @ ''zod'' @ [CHR 0x27] @ '';''"
  shows "\<exists>rest. schema_module spec si (z # vs) =
     (if si \<noteq> [] then zod_import_line si @ ''\<newline>'' else []) @
     (case commonZod spec of
        None \<Rightarrow> []
      | Some c \<Rightarrow>
          if c = [] then []
          else ''import * as commonZod from '' @ [CHR 0x22] @ ''../zod'' @ [CHR 0x22] @ '';'' @
               ''\<newline>'') @
     z @ ''\<newline>'' @ rest"
proof -
  let ?c = "''import * as commonZod from '' @ [CHR 0x22] @ ''../zod'' @ [CHR 0x22] @ '';''"
  let ?ys = "filter (\<lambda>it. it \<noteq> []) (map trim vs)"
  let ?rest = "if ?ys = [] then [] else join ''\<newline>'' ?ys @ ''\<newline>''"
  have tz: "trim z = z" "z \<noteq> []"
    unfolding z_def by (rule trim_id; simp add: is_whitespace_def) simp
  have tc: "trim ?c = ?c" "?c \<noteq> []"
    by (rule trim_id; simp add: is_whitespace_def) simp
  have zl: "zod_import_line [] = []" by (simp add: zod_import_line_def)
  have tail: "join ''\<newline>'' (z # ?ys) @ ''\<newline>'' = z @ ''\<newline>'' @ ?rest"
    by (rule join_lines)
  have with_c: "join ''\<newline>'' (?c # z # ?ys) @ ''\<newline>'' = ?c @ ''\<newline>'' @ z @ ''\<newline>'' @ ?rest"
    using join_lines[of ?c "z # ?ys"] tail by simp
  have with_l: "join ''\<newline>'' (l # z # ?ys) @ ''\<newline>'' = l @ ''\<newline>'' @ z @ ''\<newline>'' @ ?rest" for l
    using join_lines[of l "z # ?ys"] tail by simp
  have with_lc: "join ''\<newline>'' (l # ?c # z # ?ys) @ ''\<newline>'' =
      l @ ''\<newline>'' @ ?c @ ''\<newline>'' @ z @ ''\<newline>'' @ ?rest" for l
    using join_lines[of l "?c # z # ?ys"] with_c by simp
  have set': "commonZod spec = None \<or> commonZod spec = Some [] \<or>
      (\<exists>c. commonZod spec = Some c \<and> c \<noteq> [])"
    by (cases "commonZod spec") auto
  show ?thesis
  proof (cases "si = []")
    case True
    from set' show ?thesis
    proof (elim disjE exE conjE)
      assume "commonZod spec = None"
      then have "schema_module spec si (z # vs) = z @ ''\<newline>'' @ ?rest"
        unfolding schema_module_def using True tz zl tail by (simp add: trim_Nil)
      then show ?thesis using True \<open>commonZod spec = None\<close> by simp
    next
      assume e: "commonZod spec = Some []"
      then have "schema_module spec si (z # vs) = z @ ''\<newline>'' @ ?rest"
        unfolding schema_module_def using True tz zl tail by (simp add: trim_Nil)
      then show ?thesis using True e by simp
    next
      fix c assume e: "commonZod spec = Some c" "c \<noteq> []"
      then have "schema_module spec si (z # vs) = ?c @ ''\<newline>'' @ z @ ''\<newline>'' @ ?rest"
        unfolding schema_module_def using True tz zl tc with_c by (simp add: trim_Nil)
      then show ?thesis using True e by simp
    qed
  next
    case False
    note tl = zod_import_line_trim[OF False]
    from set' show ?thesis
    proof (elim disjE exE conjE)
      assume e: "commonZod spec = None"
      then have "schema_module spec si (z # vs) =
          zod_import_line si @ ''\<newline>'' @ z @ ''\<newline>'' @ ?rest"
        unfolding schema_module_def using False tz tl with_l[of "zod_import_line si"]
        by (simp add: trim_Nil)
      then show ?thesis using False e by simp
    next
      assume e: "commonZod spec = Some []"
      then have "schema_module spec si (z # vs) =
          zod_import_line si @ ''\<newline>'' @ z @ ''\<newline>'' @ ?rest"
        unfolding schema_module_def using False tz tl with_l[of "zod_import_line si"]
        by (simp add: trim_Nil)
      then show ?thesis using False e by simp
    next
      fix c assume e: "commonZod spec = Some c" "c \<noteq> []"
      then have "schema_module spec si (z # vs) =
          zod_import_line si @ ''\<newline>'' @ ?c @ ''\<newline>'' @ z @ ''\<newline>'' @ ?rest"
        unfolding schema_module_def using False tz tl tc with_lc[of "zod_import_line si"]
        by (simp add: trim_Nil)
      then show ?thesis using False e by simp
    qed
  qed
qed

text \<open>
  Every list of lines in \<open>schemas\<close> begins with the import of \<open>zod\<close>: a group sets its list
  to that line, and an operation appends to the list.
\<close>

lemma foldE_invariant:
  assumes "\<And>s x s'. P s \<Longrightarrow> f s x = Inr s' \<Longrightarrow> P s'" and "P s" and "foldE f s xs = Inr s'"
  shows "P s'"
  using assms(2,3)
proof (induction xs arbitrary: s)
  case Nil
  then show ?case by simp
next
  case (Cons x xs)
  from Cons.prems(2) obtain s1 where s1: "f s x = Inr s1" "foldE f s1 xs = Inr s'"
    by (auto split: sum.splits)
  from assms(1)[OF Cons.prems(1) s1(1)] have "P s1" .
  from Cons.IH[OF this s1(2)] show ?case .
qed

lemma set_update_cases:
  "kv \<in> set (AList.update k v al) \<Longrightarrow> kv = (k, v) \<or> kv \<in> set al"
  by (induction al) (auto split: if_splits)

lemma process_operation_heads:
  assumes "process_operation ext f st operation = Inr st'"
    and "\<forall>kv \<in> set (schemas st). \<exists>vs. snd kv = z # vs"
  shows "\<forall>kv \<in> set (schemas st'). \<exists>vs. snd kv = z # vs"
proof
  fix kv assume kv: "kv \<in> set (schemas st')"
  from process_operation_schemas[OF assms(1)] obtain ls x where
    ls: "map_of (schemas st) f = Some ls" and s: "schemas st' = AList.update f (ls @ [x]) (schemas st)"
    by blast
  from ls have "(f, ls) \<in> set (schemas st)" by (rule map_of_SomeD)
  with assms(2) obtain vs where vs: "ls = z # vs" by force
  from kv s have "kv = (f, ls @ [x]) \<or> kv \<in> set (schemas st)"
    by (simp add: set_update_cases)
  then show "\<exists>vs. snd kv = z # vs"
  proof
    assume "kv = (f, ls @ [x])"
    then show ?thesis by (simp add: vs)
  next
    assume "kv \<in> set (schemas st)"
    with assms(2) show ?thesis by blast
  qed
qed

lemma process_group_heads:
  assumes "process_group ext st grp = Inr st'"
    and "\<forall>kv \<in> set (schemas st).
           \<exists>vs. snd kv = (''import z from '' @ [CHR 0x27] @ ''zod'' @ [CHR 0x27] @ '';'') # vs"
  shows "\<forall>kv \<in> set (schemas st').
           \<exists>vs. snd kv = (''import z from '' @ [CHR 0x27] @ ''zod'' @ [CHR 0x27] @ '';'') # vs"
proof -
  let ?z = "''import z from '' @ [CHR 0x27] @ ''zod'' @ [CHR 0x27] @ '';''"
  let ?f = "camelcase ext (fst grp)"
  from assms(1) obtain st1 where f: "foldE (process_operation ext ?f) st1 (snd grp) = Inr st'"
    and k: "schemas st1 = AList.update ?f [?z] (schemas st)"
    by (auto simp: process_group_def Let_def)
  have 1: "\<forall>kv \<in> set (schemas st1). \<exists>vs. snd kv = ?z # vs"
  proof
    fix kv assume "kv \<in> set (schemas st1)"
    then have "kv = (?f, [?z]) \<or> kv \<in> set (schemas st)"
      unfolding k by (rule set_update_cases)
    with assms(2) show "\<exists>vs. snd kv = ?z # vs" by auto
  qed
  show ?thesis
  proof (rule foldE_invariant[where P = "\<lambda>s. \<forall>kv \<in> set (schemas s). \<exists>vs. snd kv = ?z # vs", OF _ 1 f])
    fix s x s'
    assume "\<forall>kv \<in> set (schemas s). \<exists>vs. snd kv = ?z # vs"
      and "process_operation ext ?f s x = Inr s'"
    then show "\<forall>kv \<in> set (schemas s'). \<exists>vs. snd kv = ?z # vs"
      by (rule process_operation_heads[rotated])
  qed
qed

lemma compile_groups_heads:
  assumes "compile_groups ext spec = Inr st" and "kv \<in> set (schemas st)"
  shows "\<exists>vs. snd kv = (''import z from '' @ [CHR 0x27] @ ''zod'' @ [CHR 0x27] @ '';'') # vs"
proof -
  let ?z = "''import z from '' @ [CHR 0x27] @ ''zod'' @ [CHR 0x27] @ '';''"
  from assms(1) have f: "foldE (process_group ext) initial_state (groups spec) = Inr st"
    by (simp add: compile_groups_def)
  have 0: "\<forall>kv \<in> set (schemas initial_state). \<exists>vs. snd kv = ?z # vs"
    by (simp add: initial_state_def)
  have "\<forall>kv \<in> set (schemas st). \<exists>vs. snd kv = ?z # vs"
  proof (rule foldE_invariant[where P = "\<lambda>s. \<forall>kv \<in> set (schemas s). \<exists>vs. snd kv = ?z # vs", OF _ 0 f])
    fix s x s'
    assume "\<forall>kv \<in> set (schemas s). \<exists>vs. snd kv = ?z # vs"
      and "process_group ext s x = Inr s'"
    then show "\<forall>kv \<in> set (schemas s'). \<exists>vs. snd kv = ?z # vs"
      by (rule process_group_heads[rotated])
  qed
  with assms(2) show ?thesis by blast
qed

text \<open>
  Claim C10, amended: every group has its schema module \<open>inputs/<group>.ts\<close>, and every such
  module consists of the same opening lines followed by lines of its own. When some operation of
  the specification declares a named import, the module starts with the shared import line,
  the import from \<open>'../zod'\<close> of the named imports of all operations of all groups, without
  duplicates. When no operation declares a named import, no such line is written. In both cases
  the import of the common module follows when \<open>spec.commonZod\<close> is set (a non-empty
  string), and then the import of \<open>zod\<close>; each of these lines ends with a line break.
\<close>

theorem shared_import_line:
  assumes "generateClientSdk ext spec = Inr files"
  shows "(\<forall>grp \<in> set (groups spec).
            \<exists>content. (''inputs/'' @ camelcase ext (fst grp) @ ''.ts'', content) \<in> set files) \<and>
         (\<forall>entry \<in> set files. take 7 (fst entry) = ''inputs/'' \<longrightarrow>
            (\<exists>rest. snd entry =
               (if all_named_imports spec \<noteq> []
                then ''import {'' @ join '','' (removeDuplicates (all_named_imports spec)) @
                     ''} from '' @ [CHR 0x27] @ ''../zod'' @ [CHR 0x27] @ '';'' @ ''\<newline>''
                else []) @
               (case commonZod spec of
                  None \<Rightarrow> []
                | Some c \<Rightarrow>
                    if c = [] then []
                    else ''import * as commonZod from '' @ [CHR 0x22] @ ''../zod'' @ [CHR 0x22] @
                         '';'' @ ''\<newline>'') @
               ''import z from '' @ [CHR 0x27] @ ''zod'' @ [CHR 0x27] @ '';'' @ ''\<newline>'' @
               rest))"
proof (intro conjI ballI impI)
  from assms(1) obtain st where st: "compile_groups ext spec = Inr st"
    and files: "files = artifacts ext spec st"
    by (auto simp: generateClientSdk_Inr)
  note si = compile_groups_schemasImports[OF st]
  {
    fix grp
    assume "grp \<in> set (groups spec)"
    from compile_groups_keys[OF st this] obtain v where
      "(camelcase ext (fst grp), v) \<in> set (schemas st)" by auto
    then have "(''inputs/'' @ camelcase ext (fst grp) @ ''.ts'',
                schema_module spec (schemasImports st) v) \<in> set files"
      unfolding files artifacts_def by force
    then show "\<exists>content. (''inputs/'' @ camelcase ext (fst grp) @ ''.ts'', content) \<in> set files"
      by blast
  }
  {
    fix entry
    assume e: "entry \<in> set files" and t: "take 7 (fst entry) = ''inputs/''"
    from e t obtain kv where kv: "kv \<in> set (schemas st)"
      "entry = (''inputs/'' @ fst kv @ ''.ts'', schema_module spec (schemasImports st) (snd kv))"
      unfolding files artifacts_def by auto
    from compile_groups_heads[OF st kv(1)] obtain vs where
      vs: "snd kv = (''import z from '' @ [CHR 0x27] @ ''zod'' @ [CHR 0x27] @ '';'') # vs"
      by blast
    from kv(2) have eq: "snd entry = schema_module spec (all_named_imports spec)
        ((''import z from '' @ [CHR 0x27] @ ''zod'' @ [CHR 0x27] @ '';'') # vs)"
      by (simp add: si vs)
    from schema_module_lines[of spec "all_named_imports spec" vs] obtain rest where
      r: "schema_module spec (all_named_imports spec)
            ((''import z from '' @ [CHR 0x27] @ ''zod'' @ [CHR 0x27] @ '';'') # vs) =
          (if all_named_imports spec \<noteq> []
           then zod_import_line (all_named_imports spec) @ ''\<newline>'' else []) @
          (case commonZod spec of
             None \<Rightarrow> []
           | Some c \<Rightarrow>
               if c = [] then []
               else ''import * as commonZod from '' @ [CHR 0x22] @ ''../zod'' @ [CHR 0x22] @
                    '';'' @ ''\<newline>'') @
          (''import z from '' @ [CHR 0x27] @ ''zod'' @ [CHR 0x27] @ '';'') @ ''\<newline>'' @ rest"
      by blast
    show "\<exists>rest. snd entry =
               (if all_named_imports spec \<noteq> []
                then ''import {'' @ join '','' (removeDuplicates (all_named_imports spec)) @
                     ''} from '' @ [CHR 0x27] @ ''../zod'' @ [CHR 0x27] @ '';'' @ ''\<newline>''
                else []) @
               (case commonZod spec of
                  None \<Rightarrow> []
                | Some c \<Rightarrow>
                    if c = [] then []
                    else ''import * as commonZod from '' @ [CHR 0x22] @ ''../zod'' @ [CHR 0x22] @
                         '';'' @ ''\<newline>'') @
               ''import z from '' @ [CHR 0x27] @ ''zod'' @ [CHR 0x27] @ '';'' @ ''\<newline>'' @
               rest" (is "\<exists>rest. ?P rest")
    proof (cases "all_named_imports spec = []")
      case True
      with r have "?P rest" by (simp add: eq)
      then show ?thesis ..
    next
      case False
      with r have "?P rest" by (simp add: eq zod_import_line_def)
      then show ?thesis ..
    qed
  }
qed

lemma shared_imports_compiles:
  "\<exists>st. compile_groups example_externals shared_imports_spec = Inr st"
  by (simp add: example_defs shared_imports_spec_def)

lemma common_zod_compiles:
  "\<exists>st. compile_groups example_externals common_zod_spec = Inr st"
  by (simp add: example_defs common_zod_spec_def)

theorem shared_import_line_witness:
  "all_named_imports shared_imports_spec = [''pageSchema'', ''cursorSchema'', ''pageSchema''] \<and>
   concat (map named_imports_of [list_items, create_item]) = [''pageSchema''] \<and>
   (\<exists>files rest1 rest2. generateClientSdk example_externals shared_imports_spec = Inr files \<and>
      (''inputs/items.ts'',
         ''import {pageSchema,cursorSchema} from '' @ [CHR 0x27] @ ''../zod'' @ [CHR 0x27] @ '';'' @
         ''\<newline>'' @
         ''import * as commonZod from '' @ [CHR 0x22] @ ''../zod'' @ [CHR 0x22] @ '';'' @
         ''\<newline>'' @
         ''import z from '' @ [CHR 0x27] @ ''zod'' @ [CHR 0x27] @ '';'' @ ''\<newline>'' @
         rest1) \<in> set files \<and>
      (''inputs/events.ts'',
         ''import {pageSchema,cursorSchema} from '' @ [CHR 0x27] @ ''../zod'' @ [CHR 0x27] @ '';'' @
         ''\<newline>'' @
         ''import * as commonZod from '' @ [CHR 0x22] @ ''../zod'' @ [CHR 0x22] @ '';'' @
         ''\<newline>'' @
         ''import z from '' @ [CHR 0x27] @ ''zod'' @ [CHR 0x27] @ '';'' @ ''\<newline>'' @
         rest2) \<in> set files) \<and>
   all_named_imports common_zod_spec = [] \<and>
   (\<exists>files rest. generateClientSdk example_externals common_zod_spec = Inr files \<and>
      (''inputs/events.ts'',
         ''import * as commonZod from '' @ [CHR 0x22] @ ''../zod'' @ [CHR 0x22] @ '';'' @
         ''\<newline>'' @
         ''import z from '' @ [CHR 0x27] @ ''zod'' @ [CHR 0x27] @ '';'' @ ''\<newline>'' @
         rest) \<in> set files)"
proof -
  let ?l = "''import {pageSchema,cursorSchema} from '' @ [CHR 0x27] @ ''../zod'' @ [CHR 0x27] @
            '';'' @ ''\<newline>''"
  let ?c = "''import * as commonZod from '' @ [CHR 0x22] @ ''../zod'' @ [CHR 0x22] @ '';'' @
            ''\<newline>''"
  let ?z = "''import z from '' @ [CHR 0x27] @ ''zod'' @ [CHR 0x27] @ '';'' @ ''\<newline>''"
  have k: "camelcase example_externals ''items'' = ''items''"
    "camelcase example_externals ''events'' = ''events''"
    by (simp_all add: example_externals_def)
  obtain st1 where "compile_groups example_externals shared_imports_spec = Inr st1"
    using shared_imports_compiles by blast
  then have g1: "generateClientSdk example_externals shared_imports_spec =
      Inr (artifacts example_externals shared_imports_spec st1)"
    by (simp add: generateClientSdk_def)
  have ni1: "all_named_imports shared_imports_spec =
      [''pageSchema'', ''cursorSchema'', ''pageSchema'']"
    by (simp add: all_named_imports_def all_operations_def shared_imports_spec_def
        named_imports_of_def list_items_def create_item_def stream_events_def)
  have own: "concat (map named_imports_of [list_items, create_item]) = [''pageSchema'']"
    by (simp add: named_imports_of_def list_items_def create_item_def)
  have l1: "join '','' (removeDuplicates (all_named_imports shared_imports_spec)) =
      ''pageSchema,cursorSchema''"
    by (simp add: ni1 removeDuplicates_def)
  have cz1: "commonZod shared_imports_spec = Some ''./common''"
    by (simp add: shared_imports_spec_def)
  note inst1 = shared_import_line[OF g1]
  have module1: "\<exists>rest. (''inputs/'' @ name @ ''.ts'', ?l @ ?c @ ?z @ rest)
         \<in> set (artifacts example_externals shared_imports_spec st1)"
    if "(name, ops) \<in> set (groups shared_imports_spec)" "camelcase example_externals name = name"
    for name ops
  proof -
    from inst1[THEN conjunct1, rule_format, OF that(1)] that(2) obtain content where
      c: "(''inputs/'' @ name @ ''.ts'', content)
            \<in> set (artifacts example_externals shared_imports_spec st1)"
      by auto
    from inst1[THEN conjunct2, rule_format, OF c] obtain rest where
      "content = ?l @ ?c @ ?z @ rest"
      unfolding l1 cz1 by (auto simp: ni1)
    with c show ?thesis by blast
  qed
  from module1[of "''items''" "[list_items, create_item]"] k(1) obtain rest1 where
    r1: "(''inputs/items.ts'', ?l @ ?c @ ?z @ rest1)
           \<in> set (artifacts example_externals shared_imports_spec st1)"
    by (auto simp: shared_imports_spec_def)
  from module1[of "''events''" "snd (groups shared_imports_spec ! 1)"] k(2) obtain rest2 where
    r2: "(''inputs/events.ts'', ?l @ ?c @ ?z @ rest2)
           \<in> set (artifacts example_externals shared_imports_spec st1)"
    by (auto simp: shared_imports_spec_def)
  have part1: "\<exists>files rest1 rest2.
      generateClientSdk example_externals shared_imports_spec = Inr files \<and>
      (''inputs/items.ts'', ?l @ ?c @ ?z @ rest1) \<in> set files \<and>
      (''inputs/events.ts'', ?l @ ?c @ ?z @ rest2) \<in> set files"
    by (rule exI[of _ "artifacts example_externals shared_imports_spec st1"], rule exI[of _ rest1],
        rule exI[of _ rest2]) (rule conjI[OF g1 conjI[OF r1 r2]])
  obtain st2 where "compile_groups example_externals common_zod_spec = Inr st2"
    using common_zod_compiles by blast
  then have g2: "generateClientSdk example_externals common_zod_spec =
      Inr (artifacts example_externals common_zod_spec st2)"
    by (simp add: generateClientSdk_def)
  have ni2: "all_named_imports common_zod_spec = []"
    by (simp add: all_named_imports_def all_operations_def common_zod_spec_def
        named_imports_of_def stream_events_def)
  have cz2: "commonZod common_zod_spec = Some ''./common''"
    by (simp add: common_zod_spec_def)
  note inst2 = shared_import_line[OF g2]
  have grp2: "(''events'', [stream_events]) \<in> set (groups common_zod_spec)"
    by (simp add: common_zod_spec_def)
  from inst2[THEN conjunct1, rule_format, OF grp2] k(2) obtain content where
    c2: "(''inputs/events.ts'', content) \<in> set (artifacts example_externals common_zod_spec st2)"
    by auto
  from inst2[THEN conjunct2, rule_format, OF c2] obtain rest where
    "content = ?c @ ?z @ rest"
    unfolding cz2 by (auto simp: ni2)
  with c2 have r3: "(''inputs/events.ts'', ?c @ ?z @ rest)
      \<in> set (artifacts example_externals common_zod_spec st2)"
    by simp
  have part2: "\<exists>files rest. generateClientSdk example_externals common_zod_spec = Inr files \<and>
      (''inputs/events.ts'', ?c @ ?z @ rest) \<in> set files"
    by (rule exI[of _ "artifacts example_externals common_zod_spec st2"], rule exI[of _ rest])
       (rule conjI[OF g2 r3])
  from ni1 own part1 ni2 part2 show ?thesis by simp
qed

text \<open>
  Claim C10, as stated, fails: in a specification without named imports (and without the
  common module) the schema module starts with the import of \<open>zod\<close>; it has no shared
  import line.
\<close>

theorem no_import_line_without_imports:
  "\<exists>files. generateClientSdk example_externals no_imports_spec = Inr files \<and>
     map_of files ''inputs/events.ts'' =
       Some (''import z from '' @ [CHR 0x27] @ ''zod'' @ [CHR 0x27] @ '';'' @ ''\<newline>'' @
             ''export const streamEventsSchema = {json: z.object({since: z.string()}), '' @
             ''formdata: z.object({since: z.string()})};'' @ ''\<newline>'')"
  by (simp add: generateClientSdk_def example_defs no_imports_spec_def artifacts_def
      schema_module_def zod_import_line_def trim_def is_whitespace_def)

end
